theory Spec2Isabelle
  imports Complex_Main
begin

section \<open>Rolling statistics of the equity-bond spread script\<close>

text \<open>
  The script \<^verbatim>\<open>plot_equity_bond_spread\<close> takes the spread column of the downloaded table and
  appends six derived columns:
  \<^verbatim>\<open>
  window = 5 * 252
  df['5y mean'] = df['spread'].rolling(window=window, min_periods=1).mean()
  df['5y std']  = df['spread'].rolling(window=window, min_periods=1).std()
  df['+1 STD']  = df['5y mean'] + 1 * df['5y std']     (and -1, +2, -2 likewise)
  \<close>
  A column is a list of cells in index order. A cell is \<open>Some x\<close> for a number and \<open>None\<close> for
  pandas' NaN. Floating point numbers are idealised as reals: rounding is not modelled.
\<close>

type_synonym column = "real option list"

text \<open>
  The trailing window that \<^verbatim>\<open>rolling(window=W)\<close> looks at for position \<open>i\<close>: the cells at
  positions \<open>max 0 (i - W + 1) .. i\<close>. Subtraction on \<open>nat\<close> stops at 0, which is the clipping
  at the start of the column.
\<close>

definition rolling_window :: "nat \<Rightarrow> 'a list \<Rightarrow> nat \<Rightarrow> 'a list" where
  "rolling_window W v i = drop (Suc i - W) (take (Suc i) v)"

text \<open>The numbers of a window; NaN cells are skipped by every rolling aggregation.\<close>

fun observed :: "column \<Rightarrow> real list" where
  "observed [] = []"
| "observed (None # w) = observed w"
| "observed (Some x # w) = x # observed w"

text \<open>
  pandas' window mean: with \<open>nobs\<close> numbers in the window the result is their sum over
  \<open>nobs\<close> when \<open>nobs \<ge> min_periods\<close> and \<open>nobs > 0\<close>, and NaN otherwise.
\<close>

definition roll_mean :: "nat \<Rightarrow> column \<Rightarrow> real option" where
  "roll_mean minp w =
     (let obs = observed w; nobs = length obs
      in if minp \<le> nobs \<and> 0 < nobs then Some (sum_list obs / real nobs) else None)"

text \<open>
  pandas' window variance with the default \<open>ddof = 1\<close>: the sum of squared deviations over
  \<open>nobs - 1\<close> when \<open>nobs \<ge> min_periods\<close> and \<open>nobs > ddof\<close>, and NaN otherwise. The standard
  deviation is its square root.
\<close>

definition roll_var :: "nat \<Rightarrow> column \<Rightarrow> real option" where
  "roll_var minp w =
     (let obs = observed w; nobs = length obs; m = sum_list obs / real nobs
      in if minp \<le> nobs \<and> 1 < nobs
         then Some (sum_list (map (\<lambda>x. (x - m)\<^sup>2) obs) / real (nobs - 1))
         else None)"

definition roll_std :: "nat \<Rightarrow> column \<Rightarrow> real option" where
  "roll_std minp w = map_option sqrt (roll_var minp w)"

definition rolling_mean :: "nat \<Rightarrow> nat \<Rightarrow> column \<Rightarrow> column" where
  "rolling_mean W minp v = map (\<lambda>i. roll_mean minp (rolling_window W v i)) [0..<length v]"

definition rolling_std :: "nat \<Rightarrow> nat \<Rightarrow> column \<Rightarrow> column" where
  "rolling_std W minp v = map (\<lambda>i. roll_std minp (rolling_window W v i)) [0..<length v]"

text \<open>Arithmetic on cells: NaN in either operand gives NaN.\<close>

fun nan_add :: "real option \<Rightarrow> real option \<Rightarrow> real option" where
  "nan_add (Some a) (Some b) = Some (a + b)"
| "nan_add _ _ = None"

fun nan_sub :: "real option \<Rightarrow> real option \<Rightarrow> real option" where
  "nan_sub (Some a) (Some b) = Some (a - b)"
| "nan_sub _ _ = None"

fun nan_scale :: "real \<Rightarrow> real option \<Rightarrow> real option" where
  "nan_scale k (Some a) = Some (k * a)"
| "nan_scale k None = None"

text \<open>Arithmetic on two columns of one table: cell by cell, the index is shared.\<close>

definition col_add :: "column \<Rightarrow> column \<Rightarrow> column" where
  "col_add a b = map2 nan_add a b"

definition col_sub :: "column \<Rightarrow> column \<Rightarrow> column" where
  "col_sub a b = map2 nan_sub a b"

definition col_scale :: "real \<Rightarrow> column \<Rightarrow> column" where
  "col_scale k a = map (nan_scale k) a"

definition window :: nat where
  "window = 5 * 252"

text \<open>
  The six columns the script computes from the spread column. The field names stand for the
  column labels of the source: the five-year mean, the five-year standard deviation and the
  four bands \<^verbatim>\<open>+1 STD\<close>, \<^verbatim>\<open>-1 STD\<close>, \<^verbatim>\<open>+2 STD\<close>, \<^verbatim>\<open>-2 STD\<close>.
\<close>

record spread_columns =
  five_year_ma :: column
  five_year_std :: column
  plus_1_STD :: column
  minus_1_STD :: column
  plus_2_STD :: column
  minus_2_STD :: column

definition plot_equity_bond_spread :: "column \<Rightarrow> spread_columns" where
  "plot_equity_bond_spread spread =
     (let ma = rolling_mean window 1 spread;
          sd = rolling_std window 1 spread
      in \<lparr> five_year_ma = ma,
           five_year_std = sd,
           plus_1_STD = col_add ma (col_scale 1 sd),
           minus_1_STD = col_sub ma (col_scale 1 sd),
           plus_2_STD = col_add ma (col_scale 2 sd),
           minus_2_STD = col_sub ma (col_scale 2 sd) \<rparr>)"

section \<open>Tables of the market data pipeline\<close>

text \<open>
  The pipeline of \<^verbatim>\<open>AKShareSummer.py\<close> works on pandas tables. A table is modelled by its row
  index and its named columns, in column order; every column lists its cells in row order.
  Row labels are calendar dates, modelled at day resolution as day numbers.
\<close>

type_synonym date = int

record frame =
  index :: "date list"
  columns :: "(string \<times> column) list"

text \<open>Every column has one cell per row.\<close>

definition wf_frame :: "frame \<Rightarrow> bool" where
  "wf_frame df \<longleftrightarrow> list_all (\<lambda>nc. length (snd nc) = length (index df)) (columns df)"

text \<open>pandas' \<^verbatim>\<open>df.empty\<close>: some axis has length 0.\<close>

definition empty_frame :: "frame \<Rightarrow> bool" where
  "empty_frame df \<longleftrightarrow> index df = [] \<or> columns df = []"

text \<open>
  \<^verbatim>\<open>df[n]\<close> and \<^verbatim>\<open>n in df.columns\<close>: the column is \<open>Some c\<close> exactly when the label is present.
\<close>

definition get_column :: "frame \<Rightarrow> string \<Rightarrow> column option" where
  "get_column df n = map_of (columns df) n"

text \<open>\<^verbatim>\<open>df[n] = c\<close>: overwrite the column in place, or append it as the last column.\<close>

definition set_column :: "string \<Rightarrow> column \<Rightarrow> frame \<Rightarrow> frame" where
  "set_column n c df =
     df\<lparr> columns :=
          (if n \<in> set (map fst (columns df))
           then map (\<lambda>md. if fst md = n then (n, c) else md) (columns df)
           else columns df @ [(n, c)]) \<rparr>"

text \<open>\<^verbatim>\<open>df[n] = x\<close> for a number \<open>x\<close>: the same number in every row.\<close>

definition set_constant :: "string \<Rightarrow> real \<Rightarrow> frame \<Rightarrow> frame" where
  "set_constant n x df = set_column n (replicate (length (index df)) (Some x)) df"

text \<open>\<^verbatim>\<open>df.rename(columns=m)\<close>: labels found in the dictionary are replaced, others stay.\<close>

definition rename_columns :: "(string \<times> string) list \<Rightarrow> frame \<Rightarrow> frame" where
  "rename_columns m df =
     df\<lparr> columns :=
          map (\<lambda>nc. (case map_of m (fst nc) of Some n' \<Rightarrow> n' | None \<Rightarrow> fst nc, snd nc))
            (columns df) \<rparr>"

text \<open>
  \<^verbatim>\<open>df.sort_index()\<close>: the rows in ascending order of their dates. Rows with equal dates keep
  their relative order here (pandas leaves their order open).
\<close>

definition sort_index :: "frame \<Rightarrow> frame" where
  "sort_index df =
     \<lparr> index = sort (index df),
       columns = map (\<lambda>nc. (fst nc, map snd (sort_key fst (zip (index df) (snd nc)))))
                   (columns df) \<rparr>"

text \<open>\<^verbatim>\<open>df.dropna(axis=1, how='all')\<close>: drop the columns that hold no number at all.\<close>

definition all_nan :: "column \<Rightarrow> bool" where
  "all_nan c \<longleftrightarrow> observed c = []"

definition dropna_all_columns :: "frame \<Rightarrow> frame" where
  "dropna_all_columns df = df\<lparr> columns := filter (\<lambda>nc. \<not> all_nan (snd nc)) (columns df) \<rparr>"

text \<open>
  Forward fill: a NaN cell takes the last number above it, and stays NaN when there is
  none. Backward fill: a NaN cell takes the first number below it.
\<close>

fun ffill_from :: "real option \<Rightarrow> column \<Rightarrow> column" where
  "ffill_from prev [] = []"
| "ffill_from prev (None # cs) = prev # ffill_from prev cs"
| "ffill_from prev (Some x # cs) = Some x # ffill_from (Some x) cs"

definition ffill_col :: "column \<Rightarrow> column" where
  "ffill_col c = ffill_from None c"

fun bfill_col :: "column \<Rightarrow> column" where
  "bfill_col [] = []"
| "bfill_col (Some x # cs) = Some x # bfill_col cs"
| "bfill_col (None # cs) = (case bfill_col cs of [] \<Rightarrow> None | y # _ \<Rightarrow> y) # bfill_col cs"

definition ffill :: "frame \<Rightarrow> frame" where
  "ffill df = df\<lparr> columns := map (\<lambda>nc. (fst nc, ffill_col (snd nc))) (columns df) \<rparr>"

definition bfill :: "frame \<Rightarrow> frame" where
  "bfill df = df\<lparr> columns := map (\<lambda>nc. (fst nc, bfill_col (snd nc))) (columns df) \<rparr>"

section \<open>Messages and errors\<close>

text \<open>
  The warnings and errors the pipeline prints or logs, in the order they are emitted.
  Progress messages are left out. An exception that no handler of the source catches is an
  \<open>error\<close> value.
\<close>

datatype message =
    ErrorNoData
  | ErrorDownload
  | WarnRemovedColumns "string set"
  | WarnBasisMissing
  | LogBondNoData
  | LogBondNoColumn
  | LogBondAllNaN
  | LogBondError
  | WarnBondFilterEmpty
  | WarnBondDefault
  | WarnBondUnavailable
  | WarnBondColumnMissing
  | ErrorSave
  | LogDownloadFailed
  | LogPrepareFailed
  | LogJsonFailed
  | LogAnalysisFailed
  | LogReportFailed

datatype error = ValueError

section \<open>The downloaded prices and the cleaning step\<close>

text \<open>
  \<^verbatim>\<open>yf.download\<close> is outside the program: it raises, or returns a table. The table here is
  its \<^verbatim>\<open>Close\<close> part, the only part the pipeline reads, with one column per ticker.
\<close>

datatype yf_result = YfRaised | YfFrame frame

definition tickers_to_download :: "(string \<times> string) list" where
  "tickers_to_download =
     [(''GC=F'', ''GOLD_spot_price''),
      (''MGC=F'', ''GOLD_near_month_future''),
      (''SI=F'', ''SILVER_future''),
      (''PL=F'', ''PLATINUM_future''),
      (''HG=F'', ''COPPER_future''),
      (''ALI=F'', ''ALUMINUM_future''),
      (''CL=F'', ''OIL_price''),
      (''NG=F'', ''NATURAL_GAS_future''),
      (''ZC=F'', ''CORN_future''),
      (''ZS=F'', ''SOYBEANS_future''),
      (''ZW=F'', ''WHEAT_future''),
      (''LE=F'', ''LIVE_CATTLE_future''),
      (''HE=F'', ''LEAN_HOGS_future''),
      (''BTC-USD'', ''BTC_price''),
      (''ETH-USD'', ''ETH_price''),
      (''^GSPC'', ''SP500_close''),
      (''^IXIC'', ''NASDAQ_close''),
      (''^VIX'', ''VIX_close''),
      (''000001.SS'', ''Shanghai_Composite_Index''),
      (''399001.SZ'', ''Shenzhen_Component_Index''),
      (''000300.SS'', ''CSI_300_Index''),
      (''DX-Y.NYB'', ''US_Dollar_Index''),
      (''CNY=X'', ''USD_CNY_exchange_rate''),
      (''^TNX'', ''US_10Y_Treasury_Yield''),
      (''TLT'', ''Long_Term_Treasury_ETF''),
      (''HYG'', ''High_Yield_Bond_ETF''),
      (''DBC'', ''Commodity_Index_ETF'')]"

text \<open>
  Step 4 of \<^verbatim>\<open>download_gold_training_data\<close>: rename the ticker columns, sort the rows by
  date, drop the columns without any number (and report them), forward fill, backward fill.
\<close>

definition aligned_panel :: "frame \<Rightarrow> frame" where
  "aligned_panel data = sort_index (rename_columns tickers_to_download data)"

definition data_cleaning :: "frame \<Rightarrow> frame \<times> message list" where
  "data_cleaning data =
     (let main_df = aligned_panel data;
          initial_cols = set (map fst (columns main_df));
          main_df = dropna_all_columns main_df;
          removed_cols = initial_cols - set (map fst (columns main_df));
          main_df = bfill (ffill main_df)
      in (main_df, if removed_cols \<noteq> {} then [WarnRemovedColumns removed_cols] else []))"

text \<open>
  Step 5: the basis column, spot minus near-month future, when both columns are there;
  a warning and no column otherwise.
\<close>

definition calculate_basis :: "frame \<Rightarrow> frame \<times> message list" where
  "calculate_basis main_df =
     (case (get_column main_df ''GOLD_spot_price'', get_column main_df ''GOLD_near_month_future'') of
        (Some spot, Some future) \<Rightarrow>
          (set_column ''GOLD_basis_spot_vs_near'' (col_sub spot future) main_df, [])
      | _ \<Rightarrow> (main_df, [WarnBasisMissing]))"

section \<open>The bond yield series and its reconciliation with the panel\<close>

text \<open>
  The bond yield table has one column; it is modelled by its rows, each a date and a cell,
  in row order.
\<close>

type_synonym series = "(date \<times> real option) list"

text \<open>
  \<^verbatim>\<open>create_default_bond_data\<close>: 365 daily rows ending today, every value 2.5. The
  source ends the range at the current time; at day resolution that is the current day.
\<close>

definition create_default_bond_data :: "date \<Rightarrow> series" where
  "create_default_bond_data today = map (\<lambda>k. (today - 364 + int k, Some 2.5)) [0..<365]"

text \<open>
  \<^verbatim>\<open>ak.bond_zh_us_rate\<close> is outside the program: it raises, or returns a table, of which
  the model keeps whether it has the ten-year yield column and, per row, the date and the
  cell of that column. Any exception inside \<^verbatim>\<open>get_china_bond_yield\<close> is caught there and
  answered with the default data.
\<close>

datatype ak_result = AkRaised | AkFrame bool series

definition get_china_bond_yield :: "ak_result \<Rightarrow> date \<Rightarrow> series \<times> message list" where
  "get_china_bond_yield ak today =
     (case ak of
        AkRaised \<Rightarrow> (create_default_bond_data today, [LogBondError])
      | AkFrame has_yield bond_data \<Rightarrow>
          if bond_data = [] then (create_default_bond_data today, [LogBondNoData])
          else if \<not> has_yield then (create_default_bond_data today, [LogBondNoColumn])
          else
            let china_10y = filter (\<lambda>r. snd r \<noteq> None) bond_data
            in if china_10y = [] then (create_default_bond_data today, [LogBondAllNaN])
               else (china_10y, []))"

text \<open>Row selection by a closed date interval.\<close>

definition clip_to :: "date \<Rightarrow> date \<Rightarrow> series \<Rightarrow> series" where
  "clip_to lo hi s = filter (\<lambda>r. lo \<le> fst r \<and> fst r \<le> hi) s"

text \<open>
  \<^verbatim>\<open>reindex(target, method='ffill')\<close> looks every target date up in the series. The series
  must have distinct dates in ascending or descending order, otherwise pandas raises
  ValueError. For ascending dates a target date gets the cell of the last row dated on or
  before it, and NaN when there is none. For descending dates the fill also runs down the
  rows, so the target date gets the cell of the last row dated on or after it.
  The pipeline calls it with a non-empty target only.
\<close>

definition pad :: "series \<Rightarrow> date \<Rightarrow> real option" where
  "pad s d = (case filter (\<lambda>r. fst r \<le> d) s of [] \<Rightarrow> None | r # rs \<Rightarrow> snd (last (r # rs)))"

definition pad_descending :: "series \<Rightarrow> date \<Rightarrow> real option" where
  "pad_descending s d =
     (case filter (\<lambda>r. d \<le> fst r) s of [] \<Rightarrow> None | r # rs \<Rightarrow> snd (last (r # rs)))"

definition reindex_ffill :: "series \<Rightarrow> date list \<Rightarrow> error + column" where
  "reindex_ffill s target =
     (let dates = map fst s
      in if \<not> distinct dates then Inl ValueError
         else if sorted dates then Inr (map (pad s) target)
         else if sorted (rev dates) then Inr (map (pad_descending s) target)
         else Inl ValueError)"

text \<open>
  \<^verbatim>\<open>resample('D').ffill()\<close>: pandas sorts the rows by date, lays out one row per day from
  the first date to the last, and fills it by the same reindexing.
\<close>

definition resample_D_ffill :: "series \<Rightarrow> error + series" where
  "resample_D_ffill s =
     (if s = [] then Inr []
      else
        let srt = sort_key fst s;
            days = [fst (hd srt)..fst (last srt)]
        in case reindex_ffill srt days of
             Inl e \<Rightarrow> Inl e
           | Inr c \<Rightarrow> Inr (zip days c))"

text \<open>
  Step 6: clip the bond series to the panel's date range; when nothing is left, resample
  it to days and clip again; reindex what is left onto the panel's index with forward fill;
  when nothing is left, use the constant 2.5.
\<close>

definition add_china_bond_yield :: "frame \<Rightarrow> series \<Rightarrow> error + frame \<times> message list" where
  "add_china_bond_yield main_df china_bond_data =
     (if china_bond_data \<noteq> [] then
        let lo = Min (set (index main_df));
            hi = Max (set (index main_df));
            filtered_china_data = clip_to lo hi china_bond_data
        in case (if filtered_china_data = []
                 then (case resample_D_ffill china_bond_data of
                         Inl e \<Rightarrow> Inl e
                       | Inr resampled \<Rightarrow> Inr (clip_to lo hi resampled, [WarnBondFilterEmpty]))
                 else Inr (filtered_china_data, [])) of
             Inl e \<Rightarrow> Inl e
           | Inr (filtered_china_data, w) \<Rightarrow>
               if filtered_china_data \<noteq> [] then
                 (case reindex_ffill filtered_china_data (index main_df) of
                    Inl e \<Rightarrow> Inl e
                  | Inr aligned \<Rightarrow> Inr (set_column ''China_10Y_Treasury_Yield'' aligned main_df, w))
               else Inr (set_constant ''China_10Y_Treasury_Yield'' 2.5 main_df, w @ [WarnBondDefault])
      else Inr (set_constant ''China_10Y_Treasury_Yield'' 2.5 main_df, [WarnBondUnavailable]))"

text \<open>
  The fill after step 6, over all columns of the panel, the new bond column included, and
  the last check that the bond column exists.
\<close>

definition final_fill :: "frame \<Rightarrow> frame \<times> message list" where
  "final_fill main_df =
     (let main_df = bfill (ffill main_df)
      in if get_column main_df ''China_10Y_Treasury_Yield'' = None
         then (set_constant ''China_10Y_Treasury_Yield'' 2.5 main_df, [WarnBondColumnMissing])
         else (main_df, []))"

text \<open>
  \<^verbatim>\<open>download_gold_training_data\<close>. It returns \<open>None\<close> when the download raises, when the
  downloaded table is empty and when the table cannot be saved; an exception of the
  reindexing is not caught. The last argument tells whether writing the file succeeds.
\<close>

definition download_gold_training_data ::
  "yf_result \<Rightarrow> ak_result \<Rightarrow> date \<Rightarrow> bool \<Rightarrow> (error + frame option) \<times> message list" where
  "download_gold_training_data yf ak today save_ok =
     (case yf of
        YfRaised \<Rightarrow> (Inr None, [ErrorDownload])
      | YfFrame full_data \<Rightarrow>
          if empty_frame full_data then (Inr None, [ErrorNoData])
          else
            let (main_df, w1) = data_cleaning full_data;
                (main_df, w2) = calculate_basis main_df;
                (china_bond_data, w3) = get_china_bond_yield ak today
            in case add_china_bond_yield main_df china_bond_data of
                 Inl e \<Rightarrow> (Inl e, w1 @ w2 @ w3)
               | Inr (main_df, w4) \<Rightarrow>
                   let (main_df, w5) = final_fill main_df
                   in if save_ok then (Inr (Some main_df), w1 @ w2 @ w3 @ w4 @ w5)
                      else (Inr None, w1 @ w2 @ w3 @ w4 @ w5 @ [ErrorSave]))"

section \<open>The snapshot of the latest values\<close>

text \<open>
  The snapshot is a JSON object. A number cell becomes a JSON number, a NaN cell stays NaN
  (\<^verbatim>\<open>float(nan)\<close>), and a field without a source column is null (Python's \<open>None\<close>). Dates
  are kept as dates: their formatting as text is not modelled.
\<close>

datatype jvalue = JNull | JNum real | JNaN | JDate date | JObj "(string \<times> jvalue) list"

definition to_float :: "real option \<Rightarrow> jvalue" where
  "to_float x = (case x of Some r \<Rightarrow> JNum r | None \<Rightarrow> JNaN)"

text \<open>\<^verbatim>\<open>df.iloc[-1]\<close>: the last row of a table, as its cells by column label.\<close>

definition iloc_last :: "frame \<Rightarrow> (string \<times> real option) list" where
  "iloc_last df =
     map (\<lambda>nc. (fst nc, case snd nc of [] \<Rightarrow> None | x # xs \<Rightarrow> last (x # xs))) (columns df)"

text \<open>\<^verbatim>\<open>float(row[label]) if label in row else None\<close>\<close>

definition float_or_null :: "(string \<times> real option) list \<Rightarrow> string \<Rightarrow> jvalue" where
  "float_or_null row label = (case map_of row label of Some x \<Rightarrow> to_float x | None \<Rightarrow> JNull)"

definition endswith :: "string \<Rightarrow> string \<Rightarrow> bool" where
  "endswith s suffix \<longleftrightarrow>
     length suffix \<le> length s \<and> drop (length s - length suffix) s = suffix"

text \<open>
  The column labels of the two indicator tables. The source writes them in Chinese; a
  label is the list of the UTF-8 bytes of the source's text, whose code points are given
  with each. Two labels are equal exactly when the source's texts are.
\<close>

definition label_buffett_indicator :: string where \<comment> \<open>U+5DF4 U+83F2 U+7279 U+6307 U+6807\<close>
  "label_buffett_indicator =
     [CHR 0xE5, CHR 0xB7, CHR 0xB4, CHR 0xE8, CHR 0x8F, CHR 0xB2, CHR 0xE7, CHR 0x89, CHR 0xB9,
      CHR 0xE6, CHR 0x8C, CHR 0x87, CHR 0xE6, CHR 0xA0, CHR 0x87]"

definition label_total_market_cap :: string where \<comment> \<open>U+603B U+5E02 U+503C\<close>
  "label_total_market_cap =
     [CHR 0xE6, CHR 0x80, CHR 0xBB, CHR 0xE5, CHR 0xB8, CHR 0x82, CHR 0xE5, CHR 0x80, CHR 0xBC]"

definition label_total_percentile :: string where \<comment> \<open>U+603B U+5386 U+53F2 U+5206 U+4F4D U+6570\<close>
  "label_total_percentile =
     [CHR 0xE6, CHR 0x80, CHR 0xBB, CHR 0xE5, CHR 0x8E, CHR 0x86, CHR 0xE5, CHR 0x8F, CHR 0xB2,
      CHR 0xE5, CHR 0x88, CHR 0x86, CHR 0xE4, CHR 0xBD, CHR 0x8D, CHR 0xE6, CHR 0x95, CHR 0xB0]"

definition label_close_price :: string where \<comment> \<open>U+6536 U+76D8 U+4EF7\<close>
  "label_close_price =
     [CHR 0xE6, CHR 0x94, CHR 0xB6, CHR 0xE7, CHR 0x9B, CHR 0x98, CHR 0xE4, CHR 0xBB, CHR 0xB7]"

definition label_spread :: string where \<comment> \<open>U+80A1 U+503A U+5229 U+5DEE\<close>
  "label_spread =
     [CHR 0xE8, CHR 0x82, CHR 0xA1, CHR 0xE5, CHR 0x80, CHR 0xBA, CHR 0xE5, CHR 0x88, CHR 0xA9,
      CHR 0xE5, CHR 0xB7, CHR 0xAE]"

definition label_five_year_ma :: string where \<comment> \<open>5 U+5E74 U+5747 U+7EBF\<close>
  "label_five_year_ma =
     [CHR 0x35, CHR 0xE5, CHR 0xB9, CHR 0xB4, CHR 0xE5, CHR 0x9D, CHR 0x87, CHR 0xE7, CHR 0xBA,
      CHR 0xBF]"

definition label_five_year_std :: string where \<comment> \<open>5 U+5E74 U+6807 U+51C6 U+5DEE\<close>
  "label_five_year_std =
     [CHR 0x35, CHR 0xE5, CHR 0xB9, CHR 0xB4, CHR 0xE6, CHR 0xA0, CHR 0x87, CHR 0xE5, CHR 0x87,
      CHR 0x86, CHR 0xE5, CHR 0xB7, CHR 0xAE]"

definition label_csi300 :: string where \<comment> \<open>U+6CAA U+6DF1 300 U+6307 U+6570\<close>
  "label_csi300 =
     [CHR 0xE6, CHR 0xB2, CHR 0xAA, CHR 0xE6, CHR 0xB7, CHR 0xB1, CHR 0x33, CHR 0x30, CHR 0x30,
      CHR 0xE6, CHR 0x8C, CHR 0x87, CHR 0xE6, CHR 0x95, CHR 0xB0]"

text \<open>
  The group of an indicator table: the date of its last row and the cells of its last row,
  by fixed field names.
\<close>

definition buffett_group :: "frame \<Rightarrow> jvalue" where
  "buffett_group buffett_df =
     (let latest_buffett = iloc_last buffett_df
      in JObj
          [(''date'', JDate (last (index buffett_df))),
           (''indicator_value'', float_or_null latest_buffett label_buffett_indicator),
           (''total_market_cap'', float_or_null latest_buffett label_total_market_cap),
           (''gdp'', float_or_null latest_buffett ''GDP''),
           (''total_percentile'', float_or_null latest_buffett label_total_percentile),
           (''close_price'', float_or_null latest_buffett label_close_price)])"

definition spread_group :: "frame \<Rightarrow> jvalue" where
  "spread_group spread_df =
     (let latest_spread = iloc_last spread_df
      in JObj
          [(''date'', JDate (last (index spread_df))),
           (''spread_value'', float_or_null latest_spread label_spread),
           (''five_year_ma'', float_or_null latest_spread label_five_year_ma),
           (''five_year_std'', float_or_null latest_spread label_five_year_std),
           (''plus_1_std'', float_or_null latest_spread ''+1 STD''),
           (''minus_1_std'', float_or_null latest_spread ''-1 STD''),
           (''plus_2_std'', float_or_null latest_spread ''+2 STD''),
           (''minus_2_std'', float_or_null latest_spread ''-2 STD''),
           (''csi300_index'', float_or_null latest_spread label_csi300)])"

text \<open>
  \<^verbatim>\<open>prepare_market_data_for_analysis\<close>: nothing for a missing or empty panel; otherwise the
  panel's last date and last row, and one group per indicator table that is there and not
  empty.
\<close>

definition prepare_market_data_for_analysis ::
  "frame option \<Rightarrow> frame option \<Rightarrow> frame option \<Rightarrow> jvalue option" where
  "prepare_market_data_for_analysis df buffett_df spread_df =
     (case df of
        None \<Rightarrow> None
      | Some df \<Rightarrow>
          if empty_frame df then None
          else
            let latest_data = iloc_last df;
                latest_values =
                  map (\<lambda>kv. (fst kv, to_float (snd kv)))
                    (filter (\<lambda>kv. \<not> endswith (fst kv) ''_pct_change'') latest_data)
            in Some (JObj
                 ([(''latest_date'', JDate (last (index df))),
                   (''latest_values'', JObj latest_values)]
                  @ (case buffett_df of
                       None \<Rightarrow> []
                     | Some b \<Rightarrow>
                         if \<not> empty_frame b then [(''buffett_indicator'', buffett_group b)] else [])
                  @ (case spread_df of
                       None \<Rightarrow> []
                     | Some s \<Rightarrow>
                         if \<not> empty_frame s then [(''equity_bond_spread'', spread_group s)] else []))))"

section \<open>The whole run\<close>

text \<open>
  What the run meets outside the program: the two downloads, the clock, the two indicator
  files (missing, unreadable, or a table), whether each file can be written, and whether the
  language model returned a usable analysis.
\<close>

datatype csv_file = FileMissing | FileUnreadable | FileTable frame

record environment =
  yf_download :: yf_result
  ak_bond :: ak_result
  now_date :: date
  csv_save_ok :: bool
  buffett_file :: csv_file
  spread_file :: csv_file
  latest_json_ok :: bool
  dated_json_ok :: bool
  analysis_generated :: bool
  analysis_json_ok :: bool
  report_ok :: bool

definition load_buffett_indicator_data :: "csv_file \<Rightarrow> frame option" where
  "load_buffett_indicator_data f = (case f of FileTable t \<Rightarrow> Some t | _ \<Rightarrow> None)"

definition load_equity_bond_spread_data :: "csv_file \<Rightarrow> frame option" where
  "load_equity_bond_spread_data f = (case f of FileTable t \<Rightarrow> Some t | _ \<Rightarrow> None)"

datatype artifact = PanelCsv | MarketDataLatest | MarketDataDated | AnalysisJson | AnalysisReport

record run_result =
  snapshot :: "jvalue option"
  artifacts :: "artifact list"
  messages :: "message list"

text \<open>
  \<^verbatim>\<open>run_market_analysis\<close>: it stops when the download returned \<open>None\<close> and when no snapshot
  could be prepared; a failure to write a file or to generate the analysis is logged.
\<close>

definition run_market_analysis :: "environment \<Rightarrow> error + run_result" where
  "run_market_analysis env =
     (case download_gold_training_data (yf_download env) (ak_bond env) (now_date env) (csv_save_ok env) of
        (Inl e, w) \<Rightarrow> Inl e
      | (Inr None, w) \<Rightarrow>
          Inr \<lparr> snapshot = None, artifacts = [], messages = w @ [LogDownloadFailed] \<rparr>
      | (Inr (Some df), w) \<Rightarrow>
          let buffett_df = load_buffett_indicator_data (buffett_file env);
              spread_df = load_equity_bond_spread_data (spread_file env)
          in case prepare_market_data_for_analysis (Some df) buffett_df spread_df of
               None \<Rightarrow>
                 Inr \<lparr> snapshot = None, artifacts = [PanelCsv], messages = w @ [LogPrepareFailed] \<rparr>
             | Some market_data \<Rightarrow>
                 let json_files =
                       (if latest_json_ok env
                        then MarketDataLatest # (if dated_json_ok env then [MarketDataDated] else [])
                        else []);
                     json_log =
                       (if latest_json_ok env \<and> dated_json_ok env then [] else [LogJsonFailed]);
                     analysis_files =
                       (if analysis_generated env
                        then (if analysis_json_ok env then [AnalysisJson] else [])
                             @ (if report_ok env then [AnalysisReport] else [])
                        else []);
                     analysis_log =
                       (if analysis_generated env
                        then (if analysis_json_ok env \<and> report_ok env then [] else [LogReportFailed])
                        else [LogAnalysisFailed])
                 in Inr \<lparr> snapshot = Some market_data,
                          artifacts = PanelCsv # json_files @ analysis_files,
                          messages = w @ json_log @ analysis_log \<rparr>)"

section \<open>Properties of the rolling statistics\<close>

lemma length_rolling_mean: "length (rolling_mean W minp v) = length v"
  by (simp add: rolling_mean_def)

lemma length_rolling_std: "length (rolling_std W minp v) = length v"
  by (simp add: rolling_std_def)

lemma rolling_mean_nth:
  "i < length v \<Longrightarrow> rolling_mean W minp v ! i = roll_mean minp (rolling_window W v i)"
  by (simp add: rolling_mean_def)

lemma rolling_std_nth:
  "i < length v \<Longrightarrow> rolling_std W minp v ! i = roll_std minp (rolling_window W v i)"
  by (simp add: rolling_std_def)

lemma rolling_window_positions:
  assumes "i < length v"
  shows "rolling_window W v i = map ((!) v) [Suc i - W..<Suc i]"
proof -
  have "take (Suc i) v = map ((!) v) [0..<Suc i]"
    using assms by (metis Suc_leI map_nth take_map take_upt add_0)
  then have "drop (Suc i - W) (take (Suc i) v) = map ((!) v) (drop (Suc i - W) [0..<Suc i])"
    by (simp only: drop_map)
  then show ?thesis
    by (simp add: rolling_window_def drop_upt)
qed

lemma rolling_window_append:
  "i < length v \<Longrightarrow> rolling_window W (v @ w) i = rolling_window W v i"
  by (simp add: rolling_window_def)

lemma observed_map_Some: "observed (map Some xs) = xs"
  by (induction xs) simp_all

lemma window_start: "nat (max 0 (int i - int W + 1)) = Suc i - W"
  by (simp add: max_def nat_diff_distrib') linarith

lemma roll_mean_1:
  "roll_mean 1 w = (let obs = observed w in if obs = [] then None else Some (sum_list obs / real (length obs)))"
  by (cases "observed w") (simp_all add: roll_mean_def Let_def)

lemma spread_ma: "five_year_ma (plot_equity_bond_spread v) = rolling_mean window 1 v"
  by (simp add: plot_equity_bond_spread_def Let_def)

lemma spread_std: "five_year_std (plot_equity_bond_spread v) = rolling_std window 1 v"
  by (simp add: plot_equity_bond_spread_def Let_def)

lemma window_pos: "0 < window"
  by (simp add: window_def)

lemma rolling_mean_1_nth:
  assumes "i < length v"
  shows "rolling_mean W 1 v ! i =
     (let obs = observed (map ((!) v) [nat (max 0 (int i - int W + 1))..<Suc i])
      in if obs = [] then None else Some (sum_list obs / real (length obs)))"
  using assms
  by (simp only: rolling_mean_nth rolling_window_positions roll_mean_1 window_start)

lemma rolling_mean_1_all_observed:
  assumes "i < length xs" and "0 < W"
  shows "rolling_mean W 1 (map Some xs) ! i =
     Some ((\<Sum>j = nat (max 0 (int i - int W + 1))..i. xs ! j) / real (min W (Suc i)))"
proof -
  let ?lo = "Suc i - W"
  have idx: "map ((!) (map Some xs)) [?lo..<Suc i] = map Some (map ((!) xs) [?lo..<Suc i])"
    using assms(1) by auto
  have ne: "map ((!) xs) [?lo..<Suc i] \<noteq> []"
    using assms(2) by simp
  have len: "length (map ((!) xs) [?lo..<Suc i]) = min W (Suc i)"
    by simp linarith
  have sm: "sum_list (map ((!) xs) [?lo..<Suc i]) = (\<Sum>j = ?lo..i. xs ! j)"
    by (simp only: interv_sum_list_conv_sum_set_nat atLeastLessThanSuc_atLeastAtMost set_upt)
  have "rolling_mean W 1 (map Some xs) ! i =
      (let obs = map ((!) xs) [?lo..<Suc i]
       in if obs = [] then None else Some (sum_list obs / real (length obs)))"
    using assms(1) rolling_mean_1_nth [of i "map Some xs" W]
    by (simp only: length_map window_start idx observed_map_Some)
  then show ?thesis
    using ne by (simp only: Let_def if_False len sm window_start)
qed

lemma example_means:
  "rolling_mean 3 1 (map Some [1, 2, 3, 4, 5]) = map Some [1, 3 / 2, 2, 3, 4]"
  by (simp add: rolling_mean_def rolling_window_def roll_mean_def upt_conv_Cons)

text \<open>
  C1. With minimum sample count 1, the rolling mean at position \<open>i\<close> is the arithmetic mean
  of the observations at positions \<open>max 0 (i - W + 1) .. i\<close>: NaN cells of the window are
  skipped, and the mean is NaN only when the window holds no number at all. When every cell is
  a number, these are the most recent \<open>min W (i + 1)\<close> observations. This holds for the
  script's window of 1260 rows, and a window of 3 over 1, 2, 3, 4, 5 gives 1, 1.5, 2, 3, 4.
\<close>

theorem rolling_mean_is_window_mean:
  assumes "i < length v" and "0 < W"
  shows "rolling_mean W 1 v ! i =
           (let obs = observed (map ((!) v) [nat (max 0 (int i - int W + 1))..<Suc i])
            in if obs = [] then None else Some (sum_list obs / real (length obs)))
       \<and> (v = map Some xs \<longrightarrow>
            rolling_mean W 1 v ! i =
              Some ((\<Sum>j = nat (max 0 (int i - int W + 1))..i. xs ! j) / real (min W (Suc i))))
       \<and> (v = map Some xs \<longrightarrow>
            five_year_ma (plot_equity_bond_spread v) ! i =
              Some ((\<Sum>j = nat (max 0 (int i - 1260 + 1))..i. xs ! j) / real (min 1260 (Suc i))))
       \<and> rolling_mean 3 1 (map Some [1, 2, 3, 4, 5]) = map Some [1, 3 / 2, 2, 3, 4]"
proof (intro conjI impI)
  show "rolling_mean W 1 v ! i =
           (let obs = observed (map ((!) v) [nat (max 0 (int i - int W + 1))..<Suc i])
            in if obs = [] then None else Some (sum_list obs / real (length obs)))"
    using assms(1) by (rule rolling_mean_1_nth)
next
  assume "v = map Some xs"
  then show "rolling_mean W 1 v ! i =
              Some ((\<Sum>j = nat (max 0 (int i - int W + 1))..i. xs ! j) / real (min W (Suc i)))"
    using assms rolling_mean_1_all_observed [of i xs W] by simp
next
  assume v: "v = map Some xs"
  have "rolling_mean window 1 (map Some xs) ! i =
     Some ((\<Sum>j = nat (max 0 (int i - int window + 1))..i. xs ! j) / real (min window (Suc i)))"
    using assms(1) v window_pos rolling_mean_1_all_observed [of i xs window] by simp
  then show "five_year_ma (plot_equity_bond_spread v) ! i =
              Some ((\<Sum>j = nat (max 0 (int i - 1260 + 1))..i. xs ! j) / real (min 1260 (Suc i)))"
    by (simp add: spread_ma v window_def)
next
  show "rolling_mean 3 1 (map Some [1, 2, 3, 4, 5]) = map Some [1, 3 / 2, 2, 3, 4]"
    by (rule example_means)
qed

theorem rolling_mean_is_window_mean_witness:
  "(3::nat) < length (map Some [1, 2, 3, 4, 5::real]) \<and> (0::nat) < 3
   \<and> rolling_mean 3 1 (map Some [1, 2, 3, 4, 5]) ! 3 = Some ((2 + 3 + 4) / 3)"
  using rolling_mean_is_window_mean [of 3 "map Some [1, 2, 3, 4, 5]" 3 "[1, 2, 3, 4, 5]"]
  by (simp add: upt_conv_Cons)

lemma spread_bands:
  "plus_1_STD (plot_equity_bond_spread v) = col_add (rolling_mean window 1 v) (col_scale 1 (rolling_std window 1 v))"
  "minus_1_STD (plot_equity_bond_spread v) = col_sub (rolling_mean window 1 v) (col_scale 1 (rolling_std window 1 v))"
  "plus_2_STD (plot_equity_bond_spread v) = col_add (rolling_mean window 1 v) (col_scale 2 (rolling_std window 1 v))"
  "minus_2_STD (plot_equity_bond_spread v) = col_sub (rolling_mean window 1 v) (col_scale 2 (rolling_std window 1 v))"
  by (simp_all add: plot_equity_bond_spread_def Let_def)

lemma col_add_scale_nth:
  "i < length a \<Longrightarrow> length b = length a \<Longrightarrow>
   col_add a (col_scale k b) ! i = nan_add (a ! i) (nan_scale k (b ! i))"
  by (simp add: col_add_def col_scale_def)

lemma col_sub_scale_nth:
  "i < length a \<Longrightarrow> length b = length a \<Longrightarrow>
   col_sub a (col_scale k b) ! i = nan_sub (a ! i) (nan_scale k (b ! i))"
  by (simp add: col_sub_def col_scale_def)

lemma band_nth:
  assumes "i < length v"
  shows "plus_1_STD (plot_equity_bond_spread v) ! i =
           nan_add (five_year_ma (plot_equity_bond_spread v) ! i)
                   (nan_scale 1 (five_year_std (plot_equity_bond_spread v) ! i))"
    and "minus_1_STD (plot_equity_bond_spread v) ! i =
           nan_sub (five_year_ma (plot_equity_bond_spread v) ! i)
                   (nan_scale 1 (five_year_std (plot_equity_bond_spread v) ! i))"
    and "plus_2_STD (plot_equity_bond_spread v) ! i =
           nan_add (five_year_ma (plot_equity_bond_spread v) ! i)
                   (nan_scale 2 (five_year_std (plot_equity_bond_spread v) ! i))"
    and "minus_2_STD (plot_equity_bond_spread v) ! i =
           nan_sub (five_year_ma (plot_equity_bond_spread v) ! i)
                   (nan_scale 2 (five_year_std (plot_equity_bond_spread v) ! i))"
  using assms
  by (simp_all add: spread_bands spread_ma spread_std col_add_scale_nth col_sub_scale_nth
        length_rolling_mean length_rolling_std)

lemma rolling_mean_append:
  "i < length v \<Longrightarrow> rolling_mean W minp (v @ w) ! i = rolling_mean W minp v ! i"
  by (simp add: rolling_mean_nth rolling_window_append)

lemma rolling_std_append:
  "i < length v \<Longrightarrow> rolling_std W minp (v @ w) ! i = rolling_std W minp v ! i"
  by (simp add: rolling_std_nth rolling_window_append)

lemma spread_append:
  assumes "i < length v"
  shows "five_year_ma (plot_equity_bond_spread (v @ w)) ! i = five_year_ma (plot_equity_bond_spread v) ! i"
    and "five_year_std (plot_equity_bond_spread (v @ w)) ! i = five_year_std (plot_equity_bond_spread v) ! i"
  using assms by (simp_all add: spread_ma spread_std rolling_mean_append rolling_std_append)

lemma band_append:
  assumes "i < length v"
  shows "plus_1_STD (plot_equity_bond_spread (v @ w)) ! i = plus_1_STD (plot_equity_bond_spread v) ! i"
    and "minus_1_STD (plot_equity_bond_spread (v @ w)) ! i = minus_1_STD (plot_equity_bond_spread v) ! i"
    and "plus_2_STD (plot_equity_bond_spread (v @ w)) ! i = plus_2_STD (plot_equity_bond_spread v) ! i"
    and "minus_2_STD (plot_equity_bond_spread (v @ w)) ! i = minus_2_STD (plot_equity_bond_spread v) ! i"
proof -
  have l: "i < length (v @ w)" using assms by simp
  show "plus_1_STD (plot_equity_bond_spread (v @ w)) ! i = plus_1_STD (plot_equity_bond_spread v) ! i"
    by (simp only: band_nth(1) [OF l] band_nth(1) [OF assms] spread_append [OF assms])
  show "minus_1_STD (plot_equity_bond_spread (v @ w)) ! i = minus_1_STD (plot_equity_bond_spread v) ! i"
    by (simp only: band_nth(2) [OF l] band_nth(2) [OF assms] spread_append [OF assms])
  show "plus_2_STD (plot_equity_bond_spread (v @ w)) ! i = plus_2_STD (plot_equity_bond_spread v) ! i"
    by (simp only: band_nth(3) [OF l] band_nth(3) [OF assms] spread_append [OF assms])
  show "minus_2_STD (plot_equity_bond_spread (v @ w)) ! i = minus_2_STD (plot_equity_bond_spread v) ! i"
    by (simp only: band_nth(4) [OF l] band_nth(4) [OF assms] spread_append [OF assms])
qed

text \<open>
  C9. At every position the four band columns are the rolling mean plus or minus one or two
  times the rolling standard deviation of the same position (NaN when either is NaN), and
  appending one more observation to the series changes no band value, mean or standard
  deviation at an earlier position.
\<close>

theorem bands_exact_and_causal:
  assumes "i < length v"
  shows "(let t = plot_equity_bond_spread v; m = five_year_ma t ! i; s = five_year_std t ! i
          in plus_1_STD t ! i = nan_add m (nan_scale 1 s)
           \<and> minus_1_STD t ! i = nan_sub m (nan_scale 1 s)
           \<and> plus_2_STD t ! i = nan_add m (nan_scale 2 s)
           \<and> minus_2_STD t ! i = nan_sub m (nan_scale 2 s))
       \<and> (five_year_ma (plot_equity_bond_spread v) ! i = Some a
            \<and> five_year_std (plot_equity_bond_spread v) ! i = Some d \<longrightarrow>
              plus_1_STD (plot_equity_bond_spread v) ! i = Some (a + 1 * d)
            \<and> minus_1_STD (plot_equity_bond_spread v) ! i = Some (a - 1 * d)
            \<and> plus_2_STD (plot_equity_bond_spread v) ! i = Some (a + 2 * d)
            \<and> minus_2_STD (plot_equity_bond_spread v) ! i = Some (a - 2 * d))
       \<and> (let t = plot_equity_bond_spread v; t' = plot_equity_bond_spread (v @ [x])
          in five_year_ma t' ! i = five_year_ma t ! i
           \<and> five_year_std t' ! i = five_year_std t ! i
           \<and> plus_1_STD t' ! i = plus_1_STD t ! i
           \<and> minus_1_STD t' ! i = minus_1_STD t ! i
           \<and> plus_2_STD t' ! i = plus_2_STD t ! i
           \<and> minus_2_STD t' ! i = minus_2_STD t ! i)"
proof (intro conjI)
  show "let t = plot_equity_bond_spread v; m = five_year_ma t ! i; s = five_year_std t ! i
          in plus_1_STD t ! i = nan_add m (nan_scale 1 s)
           \<and> minus_1_STD t ! i = nan_sub m (nan_scale 1 s)
           \<and> plus_2_STD t ! i = nan_add m (nan_scale 2 s)
           \<and> minus_2_STD t ! i = nan_sub m (nan_scale 2 s)"
    unfolding Let_def using band_nth [OF assms] by blast
next
  show "five_year_ma (plot_equity_bond_spread v) ! i = Some a
            \<and> five_year_std (plot_equity_bond_spread v) ! i = Some d \<longrightarrow>
              plus_1_STD (plot_equity_bond_spread v) ! i = Some (a + 1 * d)
            \<and> minus_1_STD (plot_equity_bond_spread v) ! i = Some (a - 1 * d)
            \<and> plus_2_STD (plot_equity_bond_spread v) ! i = Some (a + 2 * d)
            \<and> minus_2_STD (plot_equity_bond_spread v) ! i = Some (a - 2 * d)"
    by (simp add: band_nth [OF assms])
next
  show "let t = plot_equity_bond_spread v; t' = plot_equity_bond_spread (v @ [x])
          in five_year_ma t' ! i = five_year_ma t ! i
           \<and> five_year_std t' ! i = five_year_std t ! i
           \<and> plus_1_STD t' ! i = plus_1_STD t ! i
           \<and> minus_1_STD t' ! i = minus_1_STD t ! i
           \<and> plus_2_STD t' ! i = plus_2_STD t ! i
           \<and> minus_2_STD t' ! i = minus_2_STD t ! i"
    unfolding Let_def using band_append [OF assms, of "[x]"] spread_append [OF assms, of "[x]"] by blast
qed

lemma spread_example:
  "plot_equity_bond_spread [Some 1, Some 3] =
     \<lparr> five_year_ma = [Some 1, Some 2], five_year_std = [None, Some (sqrt 2)],
       plus_1_STD = [None, Some (2 + sqrt 2)], minus_1_STD = [None, Some (2 - sqrt 2)],
       plus_2_STD = [None, Some (2 + 2 * sqrt 2)], minus_2_STD = [None, Some (2 - 2 * sqrt 2)] \<rparr>"
  by (simp add: plot_equity_bond_spread_def rolling_mean_def rolling_std_def rolling_window_def
        roll_mean_def roll_std_def roll_var_def window_def col_add_def col_sub_def col_scale_def
        upt_conv_Cons power2_eq_square)

theorem bands_exact_and_causal_witness:
  "(1::nat) < length [Some 1, Some (3::real)]
   \<and> plus_2_STD (plot_equity_bond_spread [Some 1, Some 3]) ! 1 = Some (2 + 2 * sqrt 2)
   \<and> plus_2_STD (plot_equity_bond_spread ([Some 1, Some 3] @ [Some 8])) ! 1 = Some (2 + 2 * sqrt 2)"
  using bands_exact_and_causal [of 1 "[Some 1, Some 3]" 2 "sqrt 2" "Some 8"]
  by (simp add: spread_example Let_def)

text \<open>
  C10. For a non-empty series the rolling standard deviation at the first position is NaN,
  although the minimum sample count is 1: one observation has no sample standard deviation.
  So the four bands are NaN there too. The rolling mean at the first position is the first
  cell itself: it is a number exactly when the first cell is a number, and NaN when the
  series starts with a NaN cell.
\<close>

theorem first_row_std_undefined:
  assumes "v \<noteq> []"
  shows "five_year_std (plot_equity_bond_spread v) ! 0 = None
       \<and> plus_1_STD (plot_equity_bond_spread v) ! 0 = None
       \<and> minus_1_STD (plot_equity_bond_spread v) ! 0 = None
       \<and> plus_2_STD (plot_equity_bond_spread v) ! 0 = None
       \<and> minus_2_STD (plot_equity_bond_spread v) ! 0 = None
       \<and> five_year_ma (plot_equity_bond_spread v) ! 0 = hd v
       \<and> (five_year_ma (plot_equity_bond_spread v) ! 0 = None) = (hd v = None)"
proof -
  obtain c w where v: "v = c # w" using assms by (cases v) auto
  have win: "rolling_window window v 0 = [c]"
    by (simp add: rolling_window_def window_def v)
  have l: "0 < length v" using assms by simp
  have "roll_std 1 [c] = None"
    by (cases c) (simp_all add: roll_std_def roll_var_def)
  then have sd: "five_year_std (plot_equity_bond_spread v) ! 0 = None"
    by (simp only: spread_std rolling_std_nth [OF l] win)
  have "roll_mean 1 [c] = c"
    by (cases c) (simp_all add: roll_mean_def)
  then have "five_year_ma (plot_equity_bond_spread v) ! 0 = c"
    by (simp only: spread_ma rolling_mean_nth [OF l] win)
  then have ma: "five_year_ma (plot_equity_bond_spread v) ! 0 = hd v"
    by (simp add: v)
  show ?thesis
    using band_nth [OF l] sd ma by simp
qed

theorem first_row_std_undefined_witness:
  "[Some 1, Some (3::real)] \<noteq> []
   \<and> five_year_std (plot_equity_bond_spread [Some 1, Some 3]) ! 0 = None
   \<and> plus_1_STD (plot_equity_bond_spread [Some 1, Some 3]) ! 0 = None
   \<and> five_year_ma (plot_equity_bond_spread [Some 1, Some 3]) ! 0 = Some 1"
  using first_row_std_undefined [of "[Some 1, Some 3]"] by simp

text \<open>
  A series that starts with a NaN cell is not empty, and its rolling mean at the first
  position is NaN.
\<close>

theorem first_row_mean_counterexample:
  "[None, Some (1::real)] \<noteq> []
   \<and> five_year_ma (plot_equity_bond_spread [None, Some 1]) ! 0 = None"
  by (simp add: plot_equity_bond_spread_def rolling_mean_def rolling_window_def roll_mean_def
        window_def upt_conv_Cons Let_def)

section \<open>Properties of the snapshot\<close>

lemma map_fst_iloc_last: "map fst (iloc_last t) = map fst (columns t)"
  by (simp add: iloc_last_def comp_def)

lemma to_float_not_null: "to_float x \<noteq> JNull"
  by (cases x) (simp_all add: to_float_def)

lemma float_or_null_JNull_iff: "(float_or_null row l = JNull) = (map_of row l = None)"
  by (cases "map_of row l") (simp_all add: float_or_null_def to_float_not_null)

lemma float_or_null_eq_JNull:
  "(float_or_null (iloc_last t) l = JNull) = (l \<notin> set (map fst (columns t)))"
proof -
  have "(map_of (iloc_last t) l = None) = (l \<notin> set (map fst (iloc_last t)))"
    by (simp add: map_of_eq_None_iff)
  then show ?thesis
    by (simp only: float_or_null_JNull_iff map_fst_iloc_last)
qed

lemma map_of_map_snd:
  "map_of (map (\<lambda>nc. (fst nc, g (snd nc))) xs) l = map_option g (map_of xs l)"
  by (induction xs) simp_all

lemma load_table:
  "load_buffett_indicator_data (FileTable t) = Some t"
  "load_equity_bond_spread_data (FileTable t) = Some t"
  by (simp_all add: load_buffett_indicator_data_def load_equity_bond_spread_data_def)

text \<open>
  The snapshot of a non-empty panel, whatever tables come with it: the group of a table is
  looked up under its name exactly when the table is given and not empty, and the one
  table does not depend on the other.
\<close>

lemma prepare_lookup:
  assumes "\<not> empty_frame df"
  shows "\<exists>fs. prepare_market_data_for_analysis (Some df) buffett_df spread_df = Some (JObj fs)
     \<and> map_of fs ''buffett_indicator'' =
          (case buffett_df of
             None \<Rightarrow> None
           | Some b \<Rightarrow> if empty_frame b then None else Some (buffett_group b))
     \<and> map_of fs ''equity_bond_spread'' =
          (case spread_df of
             None \<Rightarrow> None
           | Some s \<Rightarrow> if empty_frame s then None else Some (spread_group s))"
  using assms
  by (cases buffett_df; cases spread_df)
     (simp_all add: prepare_market_data_for_analysis_def Let_def)

lemma buffett_group_fields:
  "\<exists>gb. buffett_group b = JObj gb
     \<and> map fst gb = [''date'', ''indicator_value'', ''total_market_cap'', ''gdp'',
                      ''total_percentile'', ''close_price'']
     \<and> (map_of gb ''indicator_value'' = Some JNull) = (label_buffett_indicator \<notin> set (map fst (columns b)))
     \<and> (map_of gb ''total_market_cap'' = Some JNull) = (label_total_market_cap \<notin> set (map fst (columns b)))
     \<and> (map_of gb ''gdp'' = Some JNull) = (''GDP'' \<notin> set (map fst (columns b)))
     \<and> (map_of gb ''total_percentile'' = Some JNull) = (label_total_percentile \<notin> set (map fst (columns b)))
     \<and> (map_of gb ''close_price'' = Some JNull) = (label_close_price \<notin> set (map fst (columns b)))"
  by (simp add: buffett_group_def Let_def float_or_null_eq_JNull del: set_map)

lemma spread_group_fields:
  "\<exists>gs. spread_group s = JObj gs
     \<and> map fst gs = [''date'', ''spread_value'', ''five_year_ma'', ''five_year_std'',
                      ''plus_1_std'', ''minus_1_std'', ''plus_2_std'', ''minus_2_std'',
                      ''csi300_index'']
     \<and> (map_of gs ''spread_value'' = Some JNull) = (label_spread \<notin> set (map fst (columns s)))
     \<and> (map_of gs ''five_year_ma'' = Some JNull) = (label_five_year_ma \<notin> set (map fst (columns s)))
     \<and> (map_of gs ''five_year_std'' = Some JNull) = (label_five_year_std \<notin> set (map fst (columns s)))
     \<and> (map_of gs ''plus_1_std'' = Some JNull) = (''+1 STD'' \<notin> set (map fst (columns s)))
     \<and> (map_of gs ''minus_1_std'' = Some JNull) = (''-1 STD'' \<notin> set (map fst (columns s)))
     \<and> (map_of gs ''plus_2_std'' = Some JNull) = (''+2 STD'' \<notin> set (map fst (columns s)))
     \<and> (map_of gs ''minus_2_std'' = Some JNull) = (''-2 STD'' \<notin> set (map fst (columns s)))
     \<and> (map_of gs ''csi300_index'' = Some JNull) = (label_csi300 \<notin> set (map fst (columns s)))"
  by (simp add: spread_group_def Let_def float_or_null_eq_JNull del: set_map)

text \<open>
  C7. For a non-empty panel the extraction always returns a snapshot. Each indicator table
  that is given and not empty (it has a row and a column) has its group in the snapshot,
  whether or not the other table is there, with all of its named fields in a fixed order;
  a field is null exactly when its source column is absent from the table. A table that is
  missing or empty has no group in the snapshot at all.
\<close>

theorem snapshot_fields_never_omitted:
  assumes "\<not> empty_frame df"
  shows "\<exists>fs.
      prepare_market_data_for_analysis (Some df) buffett_df spread_df = Some (JObj fs)
    \<and> (\<forall>b. buffett_df = Some b \<and> \<not> empty_frame b \<longrightarrow>
          (\<exists>gb. map_of fs ''buffett_indicator'' = Some (JObj gb)
             \<and> map fst gb = [''date'', ''indicator_value'', ''total_market_cap'', ''gdp'',
                              ''total_percentile'', ''close_price'']
             \<and> (map_of gb ''indicator_value'' = Some JNull) = (label_buffett_indicator \<notin> set (map fst (columns b)))
             \<and> (map_of gb ''total_market_cap'' = Some JNull) = (label_total_market_cap \<notin> set (map fst (columns b)))
             \<and> (map_of gb ''gdp'' = Some JNull) = (''GDP'' \<notin> set (map fst (columns b)))
             \<and> (map_of gb ''total_percentile'' = Some JNull) = (label_total_percentile \<notin> set (map fst (columns b)))
             \<and> (map_of gb ''close_price'' = Some JNull) = (label_close_price \<notin> set (map fst (columns b)))))
    \<and> (\<forall>s. spread_df = Some s \<and> \<not> empty_frame s \<longrightarrow>
          (\<exists>gs. map_of fs ''equity_bond_spread'' = Some (JObj gs)
             \<and> map fst gs = [''date'', ''spread_value'', ''five_year_ma'', ''five_year_std'',
                              ''plus_1_std'', ''minus_1_std'', ''plus_2_std'', ''minus_2_std'',
                              ''csi300_index'']
             \<and> (map_of gs ''spread_value'' = Some JNull) = (label_spread \<notin> set (map fst (columns s)))
             \<and> (map_of gs ''five_year_ma'' = Some JNull) = (label_five_year_ma \<notin> set (map fst (columns s)))
             \<and> (map_of gs ''five_year_std'' = Some JNull) = (label_five_year_std \<notin> set (map fst (columns s)))
             \<and> (map_of gs ''plus_1_std'' = Some JNull) = (''+1 STD'' \<notin> set (map fst (columns s)))
             \<and> (map_of gs ''minus_1_std'' = Some JNull) = (''-1 STD'' \<notin> set (map fst (columns s)))
             \<and> (map_of gs ''plus_2_std'' = Some JNull) = (''+2 STD'' \<notin> set (map fst (columns s)))
             \<and> (map_of gs ''minus_2_std'' = Some JNull) = (''-2 STD'' \<notin> set (map fst (columns s)))
             \<and> (map_of gs ''csi300_index'' = Some JNull) = (label_csi300 \<notin> set (map fst (columns s)))))
    \<and> (buffett_df = None \<or> (\<exists>b. buffett_df = Some b \<and> empty_frame b) \<longrightarrow>
          map_of fs ''buffett_indicator'' = None)
    \<and> (spread_df = None \<or> (\<exists>s. spread_df = Some s \<and> empty_frame s) \<longrightarrow>
          map_of fs ''equity_bond_spread'' = None)"
proof -
  obtain fs where p: "prepare_market_data_for_analysis (Some df) buffett_df spread_df = Some (JObj fs)"
    and lb: "map_of fs ''buffett_indicator'' =
          (case buffett_df of
             None \<Rightarrow> None
           | Some b \<Rightarrow> if empty_frame b then None else Some (buffett_group b))"
    and ls: "map_of fs ''equity_bond_spread'' =
          (case spread_df of
             None \<Rightarrow> None
           | Some s \<Rightarrow> if empty_frame s then None else Some (spread_group s))"
    using prepare_lookup [OF assms] by blast
  have b: "\<forall>b. buffett_df = Some b \<and> \<not> empty_frame b \<longrightarrow>
          (\<exists>gb. map_of fs ''buffett_indicator'' = Some (JObj gb)
             \<and> map fst gb = [''date'', ''indicator_value'', ''total_market_cap'', ''gdp'',
                              ''total_percentile'', ''close_price'']
             \<and> (map_of gb ''indicator_value'' = Some JNull) = (label_buffett_indicator \<notin> set (map fst (columns b)))
             \<and> (map_of gb ''total_market_cap'' = Some JNull) = (label_total_market_cap \<notin> set (map fst (columns b)))
             \<and> (map_of gb ''gdp'' = Some JNull) = (''GDP'' \<notin> set (map fst (columns b)))
             \<and> (map_of gb ''total_percentile'' = Some JNull) = (label_total_percentile \<notin> set (map fst (columns b)))
             \<and> (map_of gb ''close_price'' = Some JNull) = (label_close_price \<notin> set (map fst (columns b))))"
  proof (intro allI impI)
    fix b assume h: "buffett_df = Some b \<and> \<not> empty_frame b"
    then have "map_of fs ''buffett_indicator'' = Some (buffett_group b)"
      using lb by simp
    then show "\<exists>gb. map_of fs ''buffett_indicator'' = Some (JObj gb)
             \<and> map fst gb = [''date'', ''indicator_value'', ''total_market_cap'', ''gdp'',
                              ''total_percentile'', ''close_price'']
             \<and> (map_of gb ''indicator_value'' = Some JNull) = (label_buffett_indicator \<notin> set (map fst (columns b)))
             \<and> (map_of gb ''total_market_cap'' = Some JNull) = (label_total_market_cap \<notin> set (map fst (columns b)))
             \<and> (map_of gb ''gdp'' = Some JNull) = (''GDP'' \<notin> set (map fst (columns b)))
             \<and> (map_of gb ''total_percentile'' = Some JNull) = (label_total_percentile \<notin> set (map fst (columns b)))
             \<and> (map_of gb ''close_price'' = Some JNull) = (label_close_price \<notin> set (map fst (columns b)))"
      using buffett_group_fields [of b] by (metis (no_types, lifting))
  qed
  have s: "\<forall>s. spread_df = Some s \<and> \<not> empty_frame s \<longrightarrow>
          (\<exists>gs. map_of fs ''equity_bond_spread'' = Some (JObj gs)
             \<and> map fst gs = [''date'', ''spread_value'', ''five_year_ma'', ''five_year_std'',
                              ''plus_1_std'', ''minus_1_std'', ''plus_2_std'', ''minus_2_std'',
                              ''csi300_index'']
             \<and> (map_of gs ''spread_value'' = Some JNull) = (label_spread \<notin> set (map fst (columns s)))
             \<and> (map_of gs ''five_year_ma'' = Some JNull) = (label_five_year_ma \<notin> set (map fst (columns s)))
             \<and> (map_of gs ''five_year_std'' = Some JNull) = (label_five_year_std \<notin> set (map fst (columns s)))
             \<and> (map_of gs ''plus_1_std'' = Some JNull) = (''+1 STD'' \<notin> set (map fst (columns s)))
             \<and> (map_of gs ''minus_1_std'' = Some JNull) = (''-1 STD'' \<notin> set (map fst (columns s)))
             \<and> (map_of gs ''plus_2_std'' = Some JNull) = (''+2 STD'' \<notin> set (map fst (columns s)))
             \<and> (map_of gs ''minus_2_std'' = Some JNull) = (''-2 STD'' \<notin> set (map fst (columns s)))
             \<and> (map_of gs ''csi300_index'' = Some JNull) = (label_csi300 \<notin> set (map fst (columns s))))"
  proof (intro allI impI)
    fix s assume h: "spread_df = Some s \<and> \<not> empty_frame s"
    then have "map_of fs ''equity_bond_spread'' = Some (spread_group s)"
      using ls by simp
    then show "\<exists>gs. map_of fs ''equity_bond_spread'' = Some (JObj gs)
             \<and> map fst gs = [''date'', ''spread_value'', ''five_year_ma'', ''five_year_std'',
                              ''plus_1_std'', ''minus_1_std'', ''plus_2_std'', ''minus_2_std'',
                              ''csi300_index'']
             \<and> (map_of gs ''spread_value'' = Some JNull) = (label_spread \<notin> set (map fst (columns s)))
             \<and> (map_of gs ''five_year_ma'' = Some JNull) = (label_five_year_ma \<notin> set (map fst (columns s)))
             \<and> (map_of gs ''five_year_std'' = Some JNull) = (label_five_year_std \<notin> set (map fst (columns s)))
             \<and> (map_of gs ''plus_1_std'' = Some JNull) = (''+1 STD'' \<notin> set (map fst (columns s)))
             \<and> (map_of gs ''minus_1_std'' = Some JNull) = (''-1 STD'' \<notin> set (map fst (columns s)))
             \<and> (map_of gs ''plus_2_std'' = Some JNull) = (''+2 STD'' \<notin> set (map fst (columns s)))
             \<and> (map_of gs ''minus_2_std'' = Some JNull) = (''-2 STD'' \<notin> set (map fst (columns s)))
             \<and> (map_of gs ''csi300_index'' = Some JNull) = (label_csi300 \<notin> set (map fst (columns s)))"
      using spread_group_fields [of s] by (metis (no_types, lifting))
  qed
  have nb: "buffett_df = None \<or> (\<exists>b. buffett_df = Some b \<and> empty_frame b) \<longrightarrow>
          map_of fs ''buffett_indicator'' = None"
    using lb by auto
  have ns: "spread_df = None \<or> (\<exists>s. spread_df = Some s \<and> empty_frame s) \<longrightarrow>
          map_of fs ''equity_bond_spread'' = None"
    using ls by auto
  show ?thesis
    using p b s nb ns by blast
qed


lemma one_table_example:
  "prepare_market_data_for_analysis
        (Some \<lparr>index = [1], columns = [(''GOLD_spot_price'', [Some 5])]\<rparr>)
        None
        (Some \<lparr>index = [1], columns = [(''+1 STD'', [None])]\<rparr>)
      = Some (JObj
          [(''latest_date'', JDate 1),
           (''latest_values'', JObj [(''GOLD_spot_price'', JNum 5)]),
           (''equity_bond_spread'',
            JObj [(''date'', JDate 1), (''spread_value'', JNull), (''five_year_ma'', JNull),
                  (''five_year_std'', JNull), (''plus_1_std'', JNaN), (''minus_1_std'', JNull),
                  (''plus_2_std'', JNull), (''minus_2_std'', JNull), (''csi300_index'', JNull)])])"
  by code_simp

lemma two_tables_example:
  "prepare_market_data_for_analysis
        (Some \<lparr>index = [1], columns = [(''GOLD_spot_price'', [Some 5])]\<rparr>)
        (Some \<lparr>index = [1, 2], columns = [(''GDP'', [Some 10, Some 11])]\<rparr>)
        (Some \<lparr>index = [1], columns = [(''+1 STD'', [None])]\<rparr>)
      = Some (JObj
          [(''latest_date'', JDate 1),
           (''latest_values'', JObj [(''GOLD_spot_price'', JNum 5)]),
           (''buffett_indicator'',
            JObj [(''date'', JDate 2), (''indicator_value'', JNull), (''total_market_cap'', JNull),
                  (''gdp'', JNum 11), (''total_percentile'', JNull), (''close_price'', JNull)]),
           (''equity_bond_spread'',
            JObj [(''date'', JDate 1), (''spread_value'', JNull), (''five_year_ma'', JNull),
                  (''five_year_std'', JNull), (''plus_1_std'', JNaN), (''minus_1_std'', JNull),
                  (''plus_2_std'', JNull), (''minus_2_std'', JNull), (''csi300_index'', JNull)])])"
  by code_simp

theorem snapshot_fields_never_omitted_witness:
  "\<not> empty_frame \<lparr>index = [1], columns = [(''GOLD_spot_price'', [Some 5])]\<rparr>
   \<and> \<not> empty_frame \<lparr>index = [1], columns = [(''+1 STD'', [None])]\<rparr>
   \<and> \<not> empty_frame \<lparr>index = [1, 2], columns = [(''GDP'', [Some 10, Some 11])]\<rparr>
   \<and> prepare_market_data_for_analysis
        (Some \<lparr>index = [1], columns = [(''GOLD_spot_price'', [Some 5])]\<rparr>)
        None
        (Some \<lparr>index = [1], columns = [(''+1 STD'', [None])]\<rparr>)
      = Some (JObj
          [(''latest_date'', JDate 1),
           (''latest_values'', JObj [(''GOLD_spot_price'', JNum 5)]),
           (''equity_bond_spread'',
            JObj [(''date'', JDate 1), (''spread_value'', JNull), (''five_year_ma'', JNull),
                  (''five_year_std'', JNull), (''plus_1_std'', JNaN), (''minus_1_std'', JNull),
                  (''plus_2_std'', JNull), (''minus_2_std'', JNull), (''csi300_index'', JNull)])])
   \<and> prepare_market_data_for_analysis
        (Some \<lparr>index = [1], columns = [(''GOLD_spot_price'', [Some 5])]\<rparr>)
        (Some \<lparr>index = [1, 2], columns = [(''GDP'', [Some 10, Some 11])]\<rparr>)
        (Some \<lparr>index = [1], columns = [(''+1 STD'', [None])]\<rparr>)
      = Some (JObj
          [(''latest_date'', JDate 1),
           (''latest_values'', JObj [(''GOLD_spot_price'', JNum 5)]),
           (''buffett_indicator'',
            JObj [(''date'', JDate 2), (''indicator_value'', JNull), (''total_market_cap'', JNull),
                  (''gdp'', JNum 11), (''total_percentile'', JNull), (''close_price'', JNull)]),
           (''equity_bond_spread'',
            JObj [(''date'', JDate 1), (''spread_value'', JNull), (''five_year_ma'', JNull),
                  (''five_year_std'', JNull), (''plus_1_std'', JNaN), (''minus_1_std'', JNull),
                  (''plus_2_std'', JNull), (''minus_2_std'', JNull), (''csi300_index'', JNull)])])"
  using snapshot_fields_never_omitted
    [of "\<lparr>index = [1], columns = [(''GOLD_spot_price'', [Some 5])]\<rparr>"
        None "Some \<lparr>index = [1], columns = [(''+1 STD'', [None])]\<rparr>"]
    snapshot_fields_never_omitted
    [of "\<lparr>index = [1], columns = [(''GOLD_spot_price'', [Some 5])]\<rparr>"
        "Some \<lparr>index = [1, 2], columns = [(''GDP'', [Some 10, Some 11])]\<rparr>"
        "Some \<lparr>index = [1], columns = [(''+1 STD'', [None])]\<rparr>"]
  by (simp add: one_table_example two_tables_example empty_frame_def)

text \<open>
  Two tables that are given but empty: the first has a row and no data column, so every
  source column is absent from it; the second has its columns and no row. For both, the
  snapshot has no group of the table: its fields are left out, not null.
\<close>

theorem present_empty_table_counterexample:
  "prepare_market_data_for_analysis
        (Some \<lparr>index = [1], columns = [(''GOLD_spot_price'', [Some 5])]\<rparr>)
        (load_buffett_indicator_data (FileTable \<lparr>index = [1], columns = []\<rparr>))
        None
      = Some (JObj
          [(''latest_date'', JDate 1),
           (''latest_values'', JObj [(''GOLD_spot_price'', JNum 5)])])
   \<and> prepare_market_data_for_analysis
        (Some \<lparr>index = [1], columns = [(''GOLD_spot_price'', [Some 5])]\<rparr>)
        (load_buffett_indicator_data (FileTable \<lparr>index = [], columns = [(''GDP'', [])]\<rparr>))
        None
      = Some (JObj
          [(''latest_date'', JDate 1),
           (''latest_values'', JObj [(''GOLD_spot_price'', JNum 5)])])
   \<and> map_of [(''latest_date'', JDate 1),
              (''latest_values'', JObj [(''GOLD_spot_price'', JNum 5)])] ''buffett_indicator'' = None"
  by code_simp

text \<open>
  C3. The snapshot is to hold, for each indicator table, the table's values at its own
  maximum date, tagged with that date, whatever the order of the stored rows. The code
  reads the table without sorting it and takes its last stored row: for a table that
  stores the row of day 2 (GDP 10) before the row of day 1 (GDP 11), the maximum date is
  day 2, and the group is tagged with day 1 and holds 11.
\<close>

theorem snapshot_of_unsorted_table:
  "prepare_market_data_for_analysis
        (Some \<lparr>index = [1], columns = [(''GOLD_spot_price'', [Some 5])]\<rparr>)
        (load_buffett_indicator_data (FileTable \<lparr>index = [2, 1], columns = [(''GDP'', [Some 10, Some 11])]\<rparr>))
        None
      = Some (JObj
          [(''latest_date'', JDate 1),
           (''latest_values'', JObj [(''GOLD_spot_price'', JNum 5)]),
           (''buffett_indicator'',
            JObj [(''date'', JDate 1), (''indicator_value'', JNull), (''total_market_cap'', JNull),
                  (''gdp'', JNum 11), (''total_percentile'', JNull), (''close_price'', JNull)])])
   \<and> Max (set (index \<lparr>index = [2, 1], columns = [(''GDP'', [Some 10, Some 11])]\<rparr>)) = 2
   \<and> JDate 1 \<noteq> JDate 2 \<and> JNum 11 \<noteq> JNum 10"
  by (simp add: prepare_market_data_for_analysis_def empty_frame_def buffett_group_def
        iloc_last_def float_or_null_def to_float_def endswith_def Let_def
        load_table
        label_buffett_indicator_def label_total_market_cap_def label_total_percentile_def
        label_close_price_def)

section \<open>Properties of the fills\<close>

lemma length_ffill_from: "length (ffill_from p c) = length c"
  by (induction p c rule: ffill_from.induct) simp_all

lemma length_ffill_col: "length (ffill_col c) = length c"
  by (simp add: ffill_col_def length_ffill_from)

lemma length_bfill_col: "length (bfill_col c) = length c"
  by (induction c rule: bfill_col.induct) simp_all

lemma ffill_from_no_nan: "None \<notin> set c \<Longrightarrow> ffill_from p c = c"
  by (induction p c rule: ffill_from.induct) simp_all

lemma ffill_col_no_nan: "None \<notin> set c \<Longrightarrow> ffill_col c = c"
  by (simp add: ffill_col_def ffill_from_no_nan)

lemma bfill_col_no_nan: "None \<notin> set c \<Longrightarrow> bfill_col c = c"
  by (induction c rule: bfill_col.induct) simp_all

lemma ffill_from_Some_no_nan: "None \<notin> set (ffill_from (Some x) c)"
  by (induction "Some x" c arbitrary: x rule: ffill_from.induct) simp_all

lemma ffill_from_keeps: "i < length c \<Longrightarrow> c ! i = Some y \<Longrightarrow> ffill_from p c ! i = Some y"
proof (induction p c arbitrary: i rule: ffill_from.induct)
  case (1 prev)
  then show ?case by simp
next
  case (2 prev cs)
  then show ?case by (cases i) simp_all
next
  case (3 prev x cs)
  then show ?case by (cases i) simp_all
qed

lemma ffill_from_run:
  "n < length c \<Longrightarrow> (\<forall>k\<le>n. c ! k = None) \<Longrightarrow> ffill_from p c ! n = p"
proof (induction p c arbitrary: n rule: ffill_from.induct)
  case (1 prev)
  then show ?case by simp
next
  case (2 prev cs)
  show ?case
  proof (cases n)
    case 0
    then show ?thesis by simp
  next
    case (Suc m)
    have "\<forall>k\<le>m. cs ! k = None"
      using "2.prems"(2) Suc by (metis Suc_le_mono nth_Cons_Suc)
    then show ?thesis
      using "2.IH" [of m] "2.prems"(1) Suc by simp
  qed
next
  case (3 prev x cs)
  then show ?case by (metis le0 nth_Cons_0 option.distinct(1))
qed

lemma ffill_from_prior:
  "j < i \<Longrightarrow> i < length c \<Longrightarrow> c ! j = Some x \<Longrightarrow> (\<forall>k. j < k \<and> k \<le> i \<longrightarrow> c ! k = None)
   \<Longrightarrow> ffill_from p c ! i = Some x"
proof (induction p c arbitrary: i j rule: ffill_from.induct)
  case (1 prev)
  then show ?case by simp
next
  case (2 prev cs)
  obtain j' where j: "j = Suc j'" using "2.prems"(3) by (cases j) simp_all
  obtain i' where i: "i = Suc i'" using "2.prems"(1) by (cases i) simp_all
  have "\<forall>k. j' < k \<and> k \<le> i' \<longrightarrow> cs ! k = None"
    using "2.prems"(4) i j by (metis Suc_le_mono Suc_less_eq nth_Cons_Suc)
  then show ?case
    using "2.IH" [of j' i'] "2.prems" i j by simp
next
  case (3 prev y cs)
  obtain i' where i: "i = Suc i'" using "3.prems"(1) by (cases i) simp_all
  show ?case
  proof (cases j)
    case 0
    have "\<forall>k\<le>i'. cs ! k = None"
      using "3.prems"(4) 0 i by (metis Suc_le_mono nth_Cons_Suc zero_less_Suc)
    then have "ffill_from (Some y) cs ! i' = Some y"
      using ffill_from_run [of i' cs "Some y"] "3.prems"(2) i by simp
    then show ?thesis using "3.prems"(3) 0 i by simp
  next
    case (Suc j')
    have "\<forall>k. j' < k \<and> k \<le> i' \<longrightarrow> cs ! k = None"
      using "3.prems"(4) i Suc by (metis Suc_le_mono Suc_less_eq nth_Cons_Suc)
    then show ?thesis
      using "3.IH" [of j' i'] "3.prems" i Suc by simp
  qed
qed

lemma bfill_col_keeps: "i < length c \<Longrightarrow> c ! i = Some y \<Longrightarrow> bfill_col c ! i = Some y"
proof (induction c arbitrary: i rule: bfill_col.induct)
  case 1
  then show ?case by simp
next
  case (2 x cs)
  then show ?case by (cases i) simp_all
next
  case (3 cs)
  then show ?case by (cases i) simp_all
qed

lemma bfill_col_last: "c \<noteq> [] \<Longrightarrow> last c \<noteq> None \<Longrightarrow> None \<notin> set (bfill_col c)"
proof (induction c rule: bfill_col.induct)
  case 1
  then show ?case by simp
next
  case (2 x cs)
  then show ?case by (cases cs) auto
next
  case (3 cs)
  then have cs: "cs \<noteq> []" by auto
  then have n: "None \<notin> set (bfill_col cs)" using 3 by simp
  obtain y ys where b: "bfill_col cs = y # ys"
    using cs by (cases "bfill_col cs") (auto dest: arg_cong [where f = length] simp: length_bfill_col)
  show ?case using n b by auto
qed

lemma ffill_from_last:
  "c \<noteq> [] \<Longrightarrow> p \<noteq> None \<or> observed c \<noteq> [] \<Longrightarrow> last (ffill_from p c) \<noteq> None"
proof (induction p c rule: ffill_from.induct)
  case (1 prev)
  then show ?case by simp
next
  case (2 prev cs)
  then show ?case
    by (cases cs) (auto simp: length_ffill_from dest: arg_cong [where f = length])
next
  case (3 prev x cs)
  then show ?case
    by (cases cs) (auto simp: length_ffill_from dest: arg_cong [where f = length])
qed

lemma observed_nonempty_list: "observed c \<noteq> [] \<Longrightarrow> c \<noteq> []"
  by (cases c) simp_all

lemma fill_closure:
  assumes "\<not> all_nan c"
  shows "None \<notin> set (bfill_col (ffill_col c))"
proof -
  have o: "observed c \<noteq> []" using assms by (simp add: all_nan_def)
  then have c: "c \<noteq> []" by (rule observed_nonempty_list)
  have "last (ffill_col c) \<noteq> None"
    unfolding ffill_col_def using ffill_from_last [OF c] o by blast
  moreover have "ffill_col c \<noteq> []"
    using c by (metis length_ffill_col length_0_conv)
  ultimately show ?thesis by (rule bfill_col_last [rotated])
qed

lemma fill_prior:
  assumes "j < i" and "i < length c" and "c ! j = Some x"
    and "\<forall>k. j < k \<and> k \<le> i \<longrightarrow> c ! k = None"
  shows "bfill_col (ffill_col c) ! i = Some x"
proof -
  have "ffill_col c ! i = Some x"
    unfolding ffill_col_def using assms by (rule ffill_from_prior)
  then show ?thesis
    using assms(2) by (simp add: bfill_col_keeps length_ffill_col)
qed

lemma fill_keeps:
  assumes "i < length c" and "c ! i = Some y"
  shows "bfill_col (ffill_col c) ! i = Some y"
  using assms by (simp add: bfill_col_keeps ffill_col_def ffill_from_keeps length_ffill_from)

section \<open>Properties of the cleaning step\<close>

lemma data_cleaning_frame:
  "fst (data_cleaning data) = bfill (ffill (dropna_all_columns (aligned_panel data)))"
  by (simp add: data_cleaning_def Let_def)

lemma columns_fill:
  "columns (bfill (ffill df)) = map (\<lambda>nc. (fst nc, bfill_col (ffill_col (snd nc)))) (columns df)"
  by (simp add: bfill_def ffill_def comp_def)

lemma index_fill: "index (bfill (ffill df)) = index df"
  by (simp add: bfill_def ffill_def)

lemma index_aligned_panel: "index (aligned_panel data) = sort (index data)"
  by (simp add: aligned_panel_def sort_index_def rename_columns_def)

lemma index_data_cleaning: "index (fst (data_cleaning data)) = sort (index data)"
  by (simp add: data_cleaning_frame index_fill dropna_all_columns_def index_aligned_panel)

lemma columns_data_cleaning:
  "columns (fst (data_cleaning data)) =
     map (\<lambda>nc. (fst nc, bfill_col (ffill_col (snd nc))))
       (columns (dropna_all_columns (aligned_panel data)))"
  by (simp only: data_cleaning_frame columns_fill)

lemma dropna_all_columns_member:
  "nc \<in> set (columns (dropna_all_columns df)) \<Longrightarrow> \<not> all_nan (snd nc)"
  by (simp add: dropna_all_columns_def)

lemma data_cleaning_no_nan:
  "list_all (\<lambda>nc. None \<notin> set (snd nc)) (columns (fst (data_cleaning data)))"
  unfolding columns_data_cleaning list_all_iff
  using dropna_all_columns_member fill_closure by auto

lemma length_sorted_column:
  "length c = length idx \<Longrightarrow> length (map snd (sort_key fst (zip idx c))) = length idx"
  by simp

lemma wf_aligned_panel: "wf_frame data \<Longrightarrow> wf_frame (aligned_panel data)"
  by (auto simp: wf_frame_def aligned_panel_def sort_index_def rename_columns_def list_all_iff)

lemma wf_dropna: "wf_frame df \<Longrightarrow> wf_frame (dropna_all_columns df)"
  by (auto simp: wf_frame_def dropna_all_columns_def list_all_iff)

lemma wf_fill: "wf_frame df \<Longrightarrow> wf_frame (bfill (ffill df))"
  by (auto simp: wf_frame_def bfill_def ffill_def list_all_iff length_bfill_col length_ffill_col)

lemma wf_data_cleaning: "wf_frame data \<Longrightarrow> wf_frame (fst (data_cleaning data))"
  by (simp only: data_cleaning_frame wf_fill wf_dropna wf_aligned_panel)

text \<open>
  C4. After the cleaning step (drop the columns without any number, forward fill, backward
  fill) every column that is left is the filled version of the column it had before the
  fill, and holds a number in every row; where the column had NaN after some number, the
  cell holds the most recent number above it. The rows are those of the downloaded table,
  in date order.
\<close>

theorem alignment_leaves_no_gap:
  "columns (fst (data_cleaning data)) =
     map (\<lambda>nc. (fst nc, bfill_col (ffill_col (snd nc))))
       (columns (dropna_all_columns (aligned_panel data)))
   \<and> index (fst (data_cleaning data)) = sort (index data)
   \<and> list_all (\<lambda>nc. None \<notin> set (snd nc)) (columns (fst (data_cleaning data)))
   \<and> (wf_frame data \<longrightarrow>
        list_all (\<lambda>nc. length (snd nc) = length (index data)) (columns (fst (data_cleaning data))))
   \<and> (\<forall>nc \<in> set (columns (dropna_all_columns (aligned_panel data))).
        \<forall>i j x. j < i \<and> i < length (snd nc) \<and> snd nc ! j = Some x
                \<and> (\<forall>k. j < k \<and> k \<le> i \<longrightarrow> snd nc ! k = None)
          \<longrightarrow> bfill_col (ffill_col (snd nc)) ! i = Some x)"
proof (intro conjI impI ballI allI)
  show "columns (fst (data_cleaning data)) =
     map (\<lambda>nc. (fst nc, bfill_col (ffill_col (snd nc))))
       (columns (dropna_all_columns (aligned_panel data)))"
    by (rule columns_data_cleaning)
next
  show "index (fst (data_cleaning data)) = sort (index data)"
    by (rule index_data_cleaning)
next
  show "list_all (\<lambda>nc. None \<notin> set (snd nc)) (columns (fst (data_cleaning data)))"
    by (rule data_cleaning_no_nan)
next
  assume "wf_frame data"
  then have "wf_frame (fst (data_cleaning data))" by (rule wf_data_cleaning)
  then show "list_all (\<lambda>nc. length (snd nc) = length (index data)) (columns (fst (data_cleaning data)))"
    by (simp add: wf_frame_def index_data_cleaning)
next
  fix nc :: "string \<times> column" and i j x
  assume "nc \<in> set (columns (dropna_all_columns (aligned_panel data)))"
  assume "j < i \<and> i < length (snd nc) \<and> snd nc ! j = Some x
                \<and> (\<forall>k. j < k \<and> k \<le> i \<longrightarrow> snd nc ! k = None)"
  then show "bfill_col (ffill_col (snd nc)) ! i = Some x"
    using fill_prior [of j i "snd nc" x] by blast
qed

theorem alignment_leaves_no_gap_witness:
  "wf_frame \<lparr>index = [1, 2, 3, 4, 5],
             columns = [(''GC=F'', [Some 1, Some 2, None, Some 4, Some 5]),
                        (''SI=F'', [None, None, None, None, None])]\<rparr>
   \<and> columns (dropna_all_columns (aligned_panel
        \<lparr>index = [1, 2, 3, 4, 5],
          columns = [(''GC=F'', [Some 1, Some 2, None, Some 4, Some 5]),
                     (''SI=F'', [None, None, None, None, None])]\<rparr>))
      = [(''GOLD_spot_price'', [Some 1, Some 2, None, Some 4, Some 5])]
   \<and> fst (data_cleaning
        \<lparr>index = [1, 2, 3, 4, 5],
          columns = [(''GC=F'', [Some 1, Some 2, None, Some 4, Some 5]),
                     (''SI=F'', [None, None, None, None, None])]\<rparr>)
      = \<lparr>index = [1, 2, 3, 4, 5],
          columns = [(''GOLD_spot_price'', [Some 1, Some 2, Some 2, Some 4, Some 5])]\<rparr>"
  using alignment_leaves_no_gap
    [of "\<lparr>index = [1, 2, 3, 4, 5],
          columns = [(''GC=F'', [Some 1, Some 2, None, Some 4, Some 5]),
                     (''SI=F'', [None, None, None, None, None])]\<rparr>"]
  by (simp add: wf_frame_def data_cleaning_def aligned_panel_def sort_index_def
        rename_columns_def tickers_to_download_def dropna_all_columns_def all_nan_def
        bfill_def ffill_def ffill_col_def Let_def)

section \<open>Properties of the bond yield series\<close>

lemma ascending_sorted_distinct:
  "sorted_wrt (<) (map fst (s :: series)) \<Longrightarrow> sorted (map fst s) \<and> distinct (map fst s)"
  by (simp add: strict_sorted_iff)

lemma ascending_filter:
  "sorted_wrt (<) (map fst (s :: series)) \<Longrightarrow> sorted_wrt (<) (map fst (filter P s))"
  by (simp add: sorted_wrt_map sorted_wrt_filter)

lemma ascending_clip:
  "sorted_wrt (<) (map fst s) \<Longrightarrow> sorted_wrt (<) (map fst (clip_to lo hi s))"
  unfolding clip_to_def by (rule ascending_filter)

lemma default_dates:
  "map fst (create_default_bond_data today) = map (\<lambda>k. today - 364 + int k) [0..<365]"
  by (simp add: create_default_bond_data_def comp_def)

lemma ascending_default: "sorted_wrt (<) (map fst (create_default_bond_data today))"
  unfolding default_dates by (simp add: sorted_wrt_iff_nth_less)

lemma default_nonempty: "create_default_bond_data today \<noteq> []"
  by (simp add: create_default_bond_data_def)

lemma default_values: "r \<in> set (create_default_bond_data today) \<Longrightarrow> snd r = Some 2.5"
  by (auto simp: create_default_bond_data_def)

lemma bond_yield_nonempty: "fst (get_china_bond_yield ak today) \<noteq> []"
  by (cases ak) (simp_all add: get_china_bond_yield_def default_nonempty Let_def)

lemma bond_yield_values: "r \<in> set (fst (get_china_bond_yield ak today)) \<Longrightarrow> snd r \<noteq> None"
  by (cases ak) (auto simp: get_china_bond_yield_def Let_def dest: default_values split: if_splits)

lemma bond_yield_ascending:
  assumes "\<And>h rows. ak = AkFrame h rows \<Longrightarrow> sorted_wrt (<) (map fst rows)"
  shows "sorted_wrt (<) (map fst (fst (get_china_bond_yield ak today)))"
proof (cases ak)
  case AkRaised
  then show ?thesis by (simp add: get_china_bond_yield_def ascending_default)
next
  case (AkFrame h rows)
  then have "sorted_wrt (<) (map fst rows)" by (rule assms)
  then have "sorted_wrt (<) (map fst (filter (\<lambda>r. snd r \<noteq> None) rows))"
    by (rule ascending_filter)
  then show ?thesis
    using AkFrame by (simp add: get_china_bond_yield_def ascending_default Let_def)
qed

lemma reindex_ffill_ascending:
  "sorted_wrt (<) (map fst s) \<Longrightarrow> reindex_ffill s target = Inr (map (pad s) target)"
  by (simp add: reindex_ffill_def Let_def strict_sorted_iff)

lemma sort_key_ascending:
  "sorted_wrt (<) (map fst (s :: series)) \<Longrightarrow> sort_key fst s = s"
  by (simp add: strict_sorted_iff sort_key_id_if_sorted)

lemma resample_ascending:
  assumes "sorted_wrt (<) (map fst s)" and "s \<noteq> []"
  shows "resample_D_ffill s =
           Inr (map (\<lambda>d. (d, pad s d)) [fst (hd s)..fst (last s)])"
proof -
  have "zip ds (map f ds) = map (\<lambda>d. (d, f d)) ds" for ds :: "int list" and f :: "int \<Rightarrow> real option"
    by (induction ds) simp_all
  then show ?thesis
    using assms by (simp add: resample_D_ffill_def Let_def sort_key_ascending reindex_ffill_ascending)
qed

lemma ascending_resampled:
  "sorted_wrt (<) (map fst (map (\<lambda>d. (d, f d)) [a..b]))"
proof -
  have "map fst (map (\<lambda>d. (d, f d)) [a..b]) = [a..b]"
    by (simp add: comp_def)
  moreover have "sorted_wrt (<) [a..b]"
    by (simp add: strict_sorted_iff)
  ultimately show ?thesis by simp
qed

section \<open>Properties of the column operations\<close>

lemma map_of_replace_any:
  "map_of (map (\<lambda>md. if fst md = n then (n, c) else md) xs) k =
     (if k = n then map_option (\<lambda>_. c) (map_of xs n) else map_of xs k)"
  by (induction xs) auto

lemma map_of_replace:
  assumes "n \<in> set (map fst xs)"
  shows "map_of (map (\<lambda>md. if fst md = n then (n, c) else md) xs) k =
           (if k = n then Some c else map_of xs k)"
proof -
  obtain v where "map_of xs n = Some v"
    using assms by (metis map_of_eq_None_iff not_Some_eq set_map)
  then show ?thesis by (simp add: map_of_replace_any)
qed

lemma map_of_append_new:
  "n \<notin> set (map fst xs) \<Longrightarrow>
   map_of (xs @ [(n, c)]) k = (if k = n then Some c else map_of xs k)"
  by (induction xs) auto

lemma get_column_set_column:
  "get_column (set_column n c df) k = (if k = n then Some c else get_column df k)"
proof (cases "n \<in> set (map fst (columns df))")
  case True
  then have "columns (set_column n c df) = map (\<lambda>md. if fst md = n then (n, c) else md) (columns df)"
    by (simp add: set_column_def)
  then show ?thesis
    by (simp only: get_column_def map_of_replace [OF True])
next
  case False
  then have "columns (set_column n c df) = columns df @ [(n, c)]"
    by (simp add: set_column_def)
  then show ?thesis
    by (simp only: get_column_def map_of_append_new [OF False])
qed

lemma index_set_column: "index (set_column n c df) = index df"
  by (simp add: set_column_def)

lemma columns_set_column_nonempty: "columns (set_column n c df) \<noteq> []"
  by (auto simp: set_column_def)

lemma labels_replace: "map fst (map (\<lambda>md. if fst md = n then (n, c) else md) xs) = map fst xs"
  by (induction xs) simp_all

lemma labels_set_column:
  "set (map fst (columns (set_column n c df))) = insert n (set (map fst (columns df)))"
proof (cases "n \<in> set (map fst (columns df))")
  case True
  then have "map fst (columns (set_column n c df)) = map fst (columns df)"
    by (simp add: set_column_def labels_replace del: set_map)
  then show ?thesis using True by (simp only: insert_absorb)
next
  case False
  then show ?thesis by (simp add: set_column_def)
qed

lemma wf_set_column:
  "wf_frame df \<Longrightarrow> length c = length (index df) \<Longrightarrow> wf_frame (set_column n c df)"
  by (auto simp: wf_frame_def set_column_def list_all_iff)

lemma set_constant_column:
  "set_constant n x df = set_column n (replicate (length (index df)) (Some x)) df"
  by (simp add: set_constant_def)

lemma get_column_fill:
  "get_column (bfill (ffill df)) k = map_option (\<lambda>c. bfill_col (ffill_col c)) (get_column df k)"
  unfolding get_column_def columns_fill by (rule map_of_map_snd)

lemma get_column_labels: "(get_column df k = None) = (k \<notin> set (map fst (columns df)))"
  by (simp add: get_column_def map_of_eq_None_iff)

lemma labels_fill: "map fst (columns (bfill (ffill df))) = map fst (columns df)"
  by (simp add: columns_fill comp_def)

lemma fill_no_nan: "None \<notin> set c \<Longrightarrow> bfill_col (ffill_col c) = c"
  by (simp add: ffill_col_no_nan bfill_col_no_nan)

lemma final_fill_with_bond:
  "final_fill (set_column ''China_10Y_Treasury_Yield'' c m) =
     (bfill (ffill (set_column ''China_10Y_Treasury_Yield'' c m)), [])"
  by (simp add: final_fill_def Let_def get_column_fill get_column_set_column)

section \<open>Properties of the reconciliation step\<close>

lemma add_china_bond_yield_overlap:
  assumes "sorted_wrt (<) (map fst s)"
    and "clip_to (Min (set (index m))) (Max (set (index m))) s \<noteq> []"
  shows "add_china_bond_yield m s =
     Inr (set_column ''China_10Y_Treasury_Yield''
            (map (pad (clip_to (Min (set (index m))) (Max (set (index m))) s)) (index m)) m, [])"
proof -
  have s: "s \<noteq> []" using assms(2) by (auto simp: clip_to_def)
  have "reindex_ffill (clip_to (Min (set (index m))) (Max (set (index m))) s) (index m)
        = Inr (map (pad (clip_to (Min (set (index m))) (Max (set (index m))) s)) (index m))"
    using assms(1) by (intro reindex_ffill_ascending ascending_clip)
  then show ?thesis
    using s assms(2) by (simp add: add_china_bond_yield_def Let_def)
qed

lemma add_china_bond_yield_default:
  assumes "s \<noteq> []"
    and "clip_to (Min (set (index m))) (Max (set (index m))) s = []"
    and "resample_D_ffill s = Inr r"
    and "clip_to (Min (set (index m))) (Max (set (index m))) r = []"
  shows "add_china_bond_yield m s =
     Inr (set_constant ''China_10Y_Treasury_Yield'' 2.5 m, [WarnBondFilterEmpty, WarnBondDefault])"
  using assms by (simp add: add_china_bond_yield_def Let_def)

lemma add_china_bond_yield_resampled:
  assumes "sorted_wrt (<) (map fst s)" and "s \<noteq> []"
    and "clip_to (Min (set (index m))) (Max (set (index m))) s = []"
    and "resample_D_ffill s = Inr r"
    and "clip_to (Min (set (index m))) (Max (set (index m))) r \<noteq> []"
  shows "add_china_bond_yield m s =
     Inr (set_column ''China_10Y_Treasury_Yield''
            (map (pad (clip_to (Min (set (index m))) (Max (set (index m))) r)) (index m)) m,
          [WarnBondFilterEmpty])"
proof -
  have "r = map (\<lambda>d. (d, pad s d)) [fst (hd s)..fst (last s)]"
    using resample_ascending [OF assms(1,2)] assms(4) by simp
  then have "sorted_wrt (<) (map fst r)"
    by (simp only: ascending_resampled)
  then have "reindex_ffill (clip_to (Min (set (index m))) (Max (set (index m))) r) (index m)
        = Inr (map (pad (clip_to (Min (set (index m))) (Max (set (index m))) r)) (index m))"
    by (intro reindex_ffill_ascending ascending_clip)
  then show ?thesis
    using assms(2,3,4,5) by (simp add: add_china_bond_yield_def Let_def)
qed

lemma add_china_bond_yield_total:
  assumes "sorted_wrt (<) (map fst s)" and "s \<noteq> []"
  shows "\<exists>c w. add_china_bond_yield m s = Inr (set_column ''China_10Y_Treasury_Yield'' c m, w)
               \<and> length c = length (index m)"
proof (cases "clip_to (Min (set (index m))) (Max (set (index m))) s = []")
  case False
  then show ?thesis
    using add_china_bond_yield_overlap [OF assms(1)] by (metis length_map)
next
  case True
  obtain r where r: "resample_D_ffill s = Inr r"
    using resample_ascending [OF assms] by blast
  show ?thesis
  proof (cases "clip_to (Min (set (index m))) (Max (set (index m))) r = []")
    case True
    then show ?thesis
      using add_china_bond_yield_default [OF assms(2) \<open>clip_to (Min (set (index m))) (Max (set (index m))) s = []\<close> r]
      by (metis set_constant_column length_replicate)
  next
    case False
    then show ?thesis
      using add_china_bond_yield_resampled [OF assms True r] by (metis length_map)
  qed
qed

lemma add_china_bond_yield_shape:
  assumes "add_china_bond_yield m s = Inr (m', w)"
  shows "\<exists>c. m' = set_column ''China_10Y_Treasury_Yield'' c m \<and> length c = length (index m)"
proof -
  have len: "reindex_ffill f t = Inr a \<Longrightarrow> length a = length t" for f t a
    by (auto simp: reindex_ffill_def Let_def split: if_splits)
  show ?thesis
    using assms
    by (auto simp: add_china_bond_yield_def Let_def set_constant_column
          split: if_splits sum.splits prod.splits dest: len)
qed

section \<open>Properties of the download function and of the run\<close>

lemma download_raised:
  "download_gold_training_data YfRaised ak today ok = (Inr None, [ErrorDownload])"
  by (simp add: download_gold_training_data_def)

lemma download_no_data:
  "empty_frame data \<Longrightarrow>
   download_gold_training_data (YfFrame data) ak today ok = (Inr None, [ErrorNoData])"
  by (simp add: download_gold_training_data_def)

lemma download_unfold:
  assumes "\<not> empty_frame data"
  shows "download_gold_training_data (YfFrame data) ak today ok =
     (case add_china_bond_yield (fst (calculate_basis (fst (data_cleaning data))))
             (fst (get_china_bond_yield ak today)) of
        Inl e \<Rightarrow>
          (Inl e, snd (data_cleaning data) @ snd (calculate_basis (fst (data_cleaning data)))
                  @ snd (get_china_bond_yield ak today))
      | Inr mw \<Rightarrow>
          (if ok then Inr (Some (fst (final_fill (fst mw)))) else Inr None,
           snd (data_cleaning data) @ snd (calculate_basis (fst (data_cleaning data)))
           @ snd (get_china_bond_yield ak today) @ snd mw @ snd (final_fill (fst mw))
           @ (if ok then [] else [ErrorSave])))"
  using assms
  by (simp add: download_gold_training_data_def split_beta Let_def split: sum.splits)

lemma index_calculate_basis: "index (fst (calculate_basis m)) = index m"
  by (simp add: calculate_basis_def index_set_column split: option.splits)

lemma index_panel_before_bond:
  "index (fst (calculate_basis (fst (data_cleaning data)))) = sort (index data)"
  by (simp only: index_calculate_basis index_data_cleaning)

lemma download_returns_frame:
  assumes "download_gold_training_data yf ak today ok = (Inr (Some df), w)"
  shows "\<exists>data c. yf = YfFrame data \<and> \<not> empty_frame data \<and> ok
           \<and> df = bfill (ffill (set_column ''China_10Y_Treasury_Yield'' c
                     (fst (calculate_basis (fst (data_cleaning data))))))
           \<and> length c = length (index data)"
proof (cases yf)
  case YfRaised
  then show ?thesis using assms by (simp add: download_raised)
next
  case (YfFrame data)
  show ?thesis
  proof (cases "empty_frame data")
    case True
    then show ?thesis using assms YfFrame by (simp add: download_no_data)
  next
    case False
    let ?m = "fst (calculate_basis (fst (data_cleaning data)))"
    let ?s = "fst (get_china_bond_yield ak today)"
    obtain m' w4 where a: "add_china_bond_yield ?m ?s = Inr (m', w4)"
      using assms YfFrame by (cases "add_china_bond_yield ?m ?s") (auto simp: download_unfold [OF False])
    have ok: ok and df: "df = fst (final_fill m')"
      using assms YfFrame a by (auto simp: download_unfold [OF False] split: if_splits)
    obtain c where c: "m' = set_column ''China_10Y_Treasury_Yield'' c ?m" "length c = length (index ?m)"
      using add_china_bond_yield_shape [OF a] by blast
    have "length c = length (index data)"
      using c(2) by (simp add: index_panel_before_bond)
    moreover have "df = bfill (ffill (set_column ''China_10Y_Treasury_Yield'' c ?m))"
      using df c(1) by (simp add: final_fill_with_bond)
    ultimately show ?thesis
      using YfFrame False ok by blast
  qed
qed

lemma download_frame_nonempty:
  assumes "download_gold_training_data yf ak today ok = (Inr (Some df), w)"
  shows "\<not> empty_frame df"
proof -
  obtain data c where d: "\<not> empty_frame data"
    "df = bfill (ffill (set_column ''China_10Y_Treasury_Yield'' c
                     (fst (calculate_basis (fst (data_cleaning data))))))"
    using download_returns_frame [OF assms] by blast
  have "index df = sort (index data)"
    by (simp add: d(2) index_fill index_set_column index_panel_before_bond)
  moreover have "index data \<noteq> []" using d(1) by (simp add: empty_frame_def)
  moreover have "columns df \<noteq> []"
    using columns_set_column_nonempty by (simp add: d(2) columns_fill)
  ultimately show ?thesis
    by (simp add: empty_frame_def) (metis length_sort length_0_conv)
qed

lemma prepare_some:
  "\<not> empty_frame df \<Longrightarrow> prepare_market_data_for_analysis (Some df) b s \<noteq> None"
  by (simp add: prepare_market_data_for_analysis_def Let_def)

lemma run_without_snapshot:
  assumes "run_market_analysis env = Inr r" and "snapshot r = None"
  shows "artifacts r = []
       \<and> (\<exists>w. download_gold_training_data (yf_download env) (ak_bond env) (now_date env)
                 (csv_save_ok env) = (Inr None, w))"
proof -
  obtain res w where d: "download_gold_training_data (yf_download env) (ak_bond env) (now_date env)
                 (csv_save_ok env) = (res, w)"
    by (cases "download_gold_training_data (yf_download env) (ak_bond env) (now_date env)
                 (csv_save_ok env)") auto
  show ?thesis
  proof (cases res)
    case (Inl e)
    then show ?thesis using assms d by (simp add: run_market_analysis_def)
  next
    case (Inr o_df)
    show ?thesis
    proof (cases o_df)
      case None
      then show ?thesis using assms d Inr by (auto simp: run_market_analysis_def)
    next
      case (Some df)
      have "\<not> empty_frame df"
        using d Inr Some download_frame_nonempty by blast
      then obtain md where "prepare_market_data_for_analysis (Some df)
          (load_buffett_indicator_data (buffett_file env))
          (load_equity_bond_spread_data (spread_file env)) = Some md"
        using prepare_some by blast
      then have "snapshot r = Some md"
        using assms(1) d Inr Some by (auto simp: run_market_analysis_def Let_def)
      then show ?thesis using assms(2) by simp
    qed
  qed
qed

lemma download_none:
  assumes "download_gold_training_data yf ak today ok = (Inr None, w)"
  shows "yf = YfRaised \<or> (\<exists>d. yf = YfFrame d \<and> empty_frame d) \<or> \<not> ok"
proof (cases yf)
  case YfRaised
  then show ?thesis by simp
next
  case (YfFrame data)
  show ?thesis
  proof (cases "empty_frame data")
    case True
    then show ?thesis using YfFrame by blast
  next
    case False
    then show ?thesis
      using assms YfFrame
      by (auto simp: download_unfold [OF False] split: sum.splits if_splits)
  qed
qed

lemma download_not_saved:
  assumes "\<not> ok"
  shows "fst (download_gold_training_data yf ak today ok) \<noteq> Inr (Some df)"
  using download_returns_frame [of yf ak today ok df "snd (download_gold_training_data yf ak today ok)"] assms
  by (metis prod.collapse)

lemma run_download_none:
  "download_gold_training_data (yf_download env) (ak_bond env) (now_date env) (csv_save_ok env)
     = (Inr None, w) \<Longrightarrow>
   run_market_analysis env = Inr \<lparr>snapshot = None, artifacts = [], messages = w @ [LogDownloadFailed]\<rparr>"
  by (simp add: run_market_analysis_def)

lemma run_raises:
  assumes "run_market_analysis env = Inl e"
  shows "\<exists>w. download_gold_training_data (yf_download env) (ak_bond env) (now_date env)
                 (csv_save_ok env) = (Inl e, w)"
  using assms
  by (auto simp: run_market_analysis_def Let_def split: prod.splits sum.splits option.splits)

lemma download_raises:
  assumes "download_gold_training_data yf ak today ok = (Inl e, w)"
  shows "\<exists>d. yf = YfFrame d \<and> \<not> empty_frame d
           \<and> add_china_bond_yield (fst (calculate_basis (fst (data_cleaning d))))
                (fst (get_china_bond_yield ak today)) = Inl e"
proof (cases yf)
  case YfRaised
  then show ?thesis using assms by (simp add: download_raised)
next
  case (YfFrame data)
  show ?thesis
  proof (cases "empty_frame data")
    case True
    then show ?thesis using assms YfFrame by (simp add: download_no_data)
  next
    case False
    then show ?thesis
      using assms YfFrame
      by (auto simp: download_unfold [OF False] split: sum.splits if_splits)
  qed
qed

text \<open>
  C8. When the downloaded table is empty, the download function reports the missing data
  and returns no panel, and the run stops with no snapshot and no output file. The same
  happens when the download raises and when the panel cannot be saved: these three are the
  only ways a run ends without a snapshot, and a run that ends so has written nothing. A
  run that raises instead of returning raises from the bond reindexing. A file that could not be saved counts
  as not written.
\<close>

theorem run_stops_without_data:
  "(yf_download env = YfFrame data \<and> empty_frame data \<longrightarrow>
       download_gold_training_data (yf_download env) (ak_bond env) (now_date env) (csv_save_ok env)
         = (Inr None, [ErrorNoData])
     \<and> run_market_analysis env =
         Inr \<lparr>snapshot = None, artifacts = [], messages = [ErrorNoData, LogDownloadFailed]\<rparr>)
   \<and> (yf_download env = YfRaised \<longrightarrow>
       run_market_analysis env =
         Inr \<lparr>snapshot = None, artifacts = [], messages = [ErrorDownload, LogDownloadFailed]\<rparr>)
   \<and> (\<not> csv_save_ok env \<and> run_market_analysis env = Inr r \<longrightarrow>
       snapshot r = None \<and> artifacts r = [])
   \<and> (run_market_analysis env = Inr r \<and> snapshot r = None \<longrightarrow>
       artifacts r = []
       \<and> (yf_download env = YfRaised
          \<or> (\<exists>d. yf_download env = YfFrame d \<and> empty_frame d)
          \<or> \<not> csv_save_ok env))
   \<and> (run_market_analysis env = Inl e \<longrightarrow>
       (\<exists>d. yf_download env = YfFrame d \<and> \<not> empty_frame d
          \<and> add_china_bond_yield (fst (calculate_basis (fst (data_cleaning d))))
               (fst (get_china_bond_yield (ak_bond env) (now_date env))) = Inl e))"
proof (intro conjI impI)
  assume a: "yf_download env = YfFrame data \<and> empty_frame data"
  then show d: "download_gold_training_data (yf_download env) (ak_bond env) (now_date env) (csv_save_ok env)
         = (Inr None, [ErrorNoData])"
    by (simp add: download_no_data)
  show "run_market_analysis env =
         Inr \<lparr>snapshot = None, artifacts = [], messages = [ErrorNoData, LogDownloadFailed]\<rparr>"
    using run_download_none [OF d] by simp
next
  assume "yf_download env = YfRaised"
  then have "download_gold_training_data (yf_download env) (ak_bond env) (now_date env) (csv_save_ok env)
         = (Inr None, [ErrorDownload])"
    by (simp add: download_raised)
  then show "run_market_analysis env =
         Inr \<lparr>snapshot = None, artifacts = [], messages = [ErrorDownload, LogDownloadFailed]\<rparr>"
    using run_download_none by fastforce
next
  assume a: "\<not> csv_save_ok env \<and> run_market_analysis env = Inr r"
  obtain res w where d: "download_gold_training_data (yf_download env) (ak_bond env) (now_date env)
                 (csv_save_ok env) = (res, w)"
    by (cases "download_gold_training_data (yf_download env) (ak_bond env) (now_date env)
                 (csv_save_ok env)") auto
  have "res = Inr None"
  proof (cases res)
    case (Inl x)
    then show ?thesis using a d by (simp add: run_market_analysis_def)
  next
    case (Inr o_df)
    then show ?thesis
      using a d download_not_saved [of "csv_save_ok env" "yf_download env" "ak_bond env" "now_date env"]
      by (cases o_df) auto
  qed
  then have "run_market_analysis env =
      Inr \<lparr>snapshot = None, artifacts = [], messages = w @ [LogDownloadFailed]\<rparr>"
    using d run_download_none by blast
  then have "r = \<lparr>snapshot = None, artifacts = [], messages = w @ [LogDownloadFailed]\<rparr>"
    using a by simp
  then show "snapshot r = None" and "artifacts r = []" by simp_all
next
  assume a: "run_market_analysis env = Inr r \<and> snapshot r = None"
  then show "artifacts r = []"
    using run_without_snapshot by blast
  obtain w where "download_gold_training_data (yf_download env) (ak_bond env) (now_date env)
                 (csv_save_ok env) = (Inr None, w)"
    using a run_without_snapshot by blast
  then show "yf_download env = YfRaised
          \<or> (\<exists>d. yf_download env = YfFrame d \<and> empty_frame d)
          \<or> \<not> csv_save_ok env"
    by (rule download_none)
next
  assume "run_market_analysis env = Inl e"
  then obtain w where "download_gold_training_data (yf_download env) (ak_bond env) (now_date env)
                 (csv_save_ok env) = (Inl e, w)"
    using run_raises by blast
  then show "\<exists>d. yf_download env = YfFrame d \<and> \<not> empty_frame d
          \<and> add_china_bond_yield (fst (calculate_basis (fst (data_cleaning d))))
               (fst (get_china_bond_yield (ak_bond env) (now_date env))) = Inl e"
    by (rule download_raises)
qed

theorem run_stops_without_data_witness:
  "yf_download
     \<lparr>yf_download = YfFrame \<lparr>index = [], columns = []\<rparr>, ak_bond = AkRaised, now_date = 3,
      csv_save_ok = True, buffett_file = FileMissing, spread_file = FileMissing,
      latest_json_ok = True, dated_json_ok = True, analysis_generated = True,
      analysis_json_ok = True, report_ok = True\<rparr> = YfFrame \<lparr>index = [], columns = []\<rparr>
   \<and> empty_frame \<lparr>index = [], columns = []\<rparr>
   \<and> run_market_analysis
     \<lparr>yf_download = YfFrame \<lparr>index = [], columns = []\<rparr>, ak_bond = AkRaised, now_date = 3,
      csv_save_ok = True, buffett_file = FileMissing, spread_file = FileMissing,
      latest_json_ok = True, dated_json_ok = True, analysis_generated = True,
      analysis_json_ok = True, report_ok = True\<rparr>
     = Inr \<lparr>snapshot = None, artifacts = [], messages = [ErrorNoData, LogDownloadFailed]\<rparr>"
  using run_stops_without_data
    [of "\<lparr>yf_download = YfFrame \<lparr>index = [], columns = []\<rparr>, ak_bond = AkRaised, now_date = 3,
      csv_save_ok = True, buffett_file = FileMissing, spread_file = FileMissing,
      latest_json_ok = True, dated_json_ok = True, analysis_generated = True,
      analysis_json_ok = True, report_ok = True\<rparr>" "\<lparr>index = [], columns = []\<rparr>"]
  by (simp add: empty_frame_def)

text \<open>
  In the counterexample the downloaded table has three rows and one price column, so it is
  not empty, but the panel cannot be saved: the run stops with no snapshot and no file.
\<close>

theorem only_abort_condition_counterexample:
  "\<not> empty_frame \<lparr>index = [1, 2, 3], columns = [(''GC=F'', [Some 10, Some 11, Some 12])]\<rparr>
   \<and> run_market_analysis
     \<lparr>yf_download = YfFrame \<lparr>index = [1, 2, 3], columns = [(''GC=F'', [Some 10, Some 11, Some 12])]\<rparr>,
      ak_bond = AkFrame True [(2, Some 5)], now_date = 3,
      csv_save_ok = False, buffett_file = FileMissing, spread_file = FileMissing,
      latest_json_ok = True, dated_json_ok = True, analysis_generated = True,
      analysis_json_ok = True, report_ok = True\<rparr>
     = Inr \<lparr>snapshot = None, artifacts = [],
            messages = [WarnBasisMissing, ErrorSave, LogDownloadFailed]\<rparr>"
  by code_simp

section \<open>Properties of the basis column\<close>

lemma labels_rename:
  "n \<in> set (map fst (columns (rename_columns d df))) \<Longrightarrow>
   n \<in> set (map fst (columns df)) \<or> n \<in> snd ` set d"
proof -
  assume "n \<in> set (map fst (columns (rename_columns d df)))"
  then obtain nc where nc: "nc \<in> set (columns df)"
    and n: "n = (case map_of d (fst nc) of Some n' \<Rightarrow> n' | None \<Rightarrow> fst nc)"
    by (auto simp: rename_columns_def)
  show ?thesis
  proof (cases "map_of d (fst nc)")
    case None
    then show ?thesis using nc n by auto
  next
    case (Some n')
    then have "(fst nc, n) \<in> set d" using n by (simp add: map_of_SomeD)
    then show ?thesis by force
  qed
qed

lemma labels_sort_index: "map fst (columns (sort_index df)) = map fst (columns df)"
  by (simp add: sort_index_def comp_def)

lemma labels_dropna:
  "set (map fst (columns (dropna_all_columns df))) \<subseteq> set (map fst (columns df))"
  by (auto simp: dropna_all_columns_def)

lemma labels_data_cleaning:
  assumes "n \<in> set (map fst (columns (fst (data_cleaning data))))"
  shows "n \<in> set (map fst (columns data)) \<or> n \<in> snd ` set tickers_to_download"
proof -
  have "n \<in> set (map fst (columns (dropna_all_columns (aligned_panel data))))"
    using assms by (simp only: data_cleaning_frame labels_fill)
  then have "n \<in> set (map fst (columns (aligned_panel data)))"
    using labels_dropna by blast
  then have "n \<in> set (map fst (columns (rename_columns tickers_to_download data)))"
    by (simp only: aligned_panel_def labels_sort_index)
  then show ?thesis by (rule labels_rename)
qed

lemma basis_not_a_ticker_name: "''GOLD_basis_spot_vs_near'' \<notin> snd ` set tickers_to_download"
  by (simp add: tickers_to_download_def)

lemma no_basis_after_cleaning:
  assumes "''GOLD_basis_spot_vs_near'' \<notin> set (map fst (columns data))"
  shows "get_column (fst (data_cleaning data)) ''GOLD_basis_spot_vs_near'' = None"
  using assms labels_data_cleaning basis_not_a_ticker_name
  by (metis get_column_labels)

lemma cleaned_column:
  assumes "wf_frame data" and "get_column (fst (data_cleaning data)) n = Some a"
  shows "None \<notin> set a \<and> length a = length (index data)"
proof -
  have m: "(n, a) \<in> set (columns (fst (data_cleaning data)))"
    using assms(2) by (simp add: get_column_def map_of_SomeD)
  have "wf_frame (fst (data_cleaning data))" using assms(1) by (rule wf_data_cleaning)
  then have "length a = length (index data)"
    using m by (auto simp: wf_frame_def list_all_iff index_data_cleaning)
  moreover have "None \<notin> set a"
    using m data_cleaning_no_nan [of data] by (auto simp: list_all_iff)
  ultimately show ?thesis by simp
qed

lemma col_sub_no_nan:
  assumes "None \<notin> set a" and "None \<notin> set b"
  shows "None \<notin> set (col_sub a b)"
proof
  assume "None \<in> set (col_sub a b)"
  then obtain x y where xy: "(x, y) \<in> set (zip a b)" and n: "nan_sub x y = None"
    by (auto simp: col_sub_def)
  have "x \<in> set a" and "y \<in> set b"
    using xy by (auto elim: in_set_zipE)
  then obtain u v where "x = Some u" and "y = Some v"
    using assms by (metis not_Some_eq)
  then show False using n by simp
qed

lemma col_sub_nth:
  assumes "None \<notin> set a" and "None \<notin> set b" and "i < length a" and "length b = length a"
  shows "\<exists>x y. a ! i = Some x \<and> b ! i = Some y \<and> col_sub a b ! i = Some (x - y)"
proof -
  obtain x where x: "a ! i = Some x"
    using assms(1,3) by (metis nth_mem not_Some_eq)
  obtain y where y: "b ! i = Some y"
    using assms(2,3,4) by (metis nth_mem not_Some_eq)
  have "col_sub a b ! i = nan_sub (a ! i) (b ! i)"
    using assms(3,4) by (simp add: col_sub_def)
  then show ?thesis using x y by simp
qed

lemma cleaning_messages: "WarnBasisMissing \<notin> set (snd (data_cleaning data))"
  by (simp add: data_cleaning_def Let_def)

lemma bond_yield_messages: "WarnBasisMissing \<notin> set (snd (get_china_bond_yield ak today))"
  by (cases ak) (simp_all add: get_china_bond_yield_def Let_def)

lemma reconcile_messages:
  "add_china_bond_yield m s = Inr (m', w) \<Longrightarrow> WarnBasisMissing \<notin> set w"
  by (auto simp: add_china_bond_yield_def Let_def split: if_splits sum.splits prod.splits)

lemma download_returns_detail:
  assumes "download_gold_training_data yf ak today ok = (Inr (Some df), msgs)"
  shows "\<exists>data c w4. yf = YfFrame data \<and> \<not> empty_frame data \<and> ok
           \<and> add_china_bond_yield (fst (calculate_basis (fst (data_cleaning data))))
                (fst (get_china_bond_yield ak today))
               = Inr (set_column ''China_10Y_Treasury_Yield'' c
                        (fst (calculate_basis (fst (data_cleaning data)))), w4)
           \<and> length c = length (index data)
           \<and> df = bfill (ffill (set_column ''China_10Y_Treasury_Yield'' c
                     (fst (calculate_basis (fst (data_cleaning data))))))
           \<and> msgs = snd (data_cleaning data) @ snd (calculate_basis (fst (data_cleaning data)))
                    @ snd (get_china_bond_yield ak today) @ w4"
proof -
  obtain data where y: "yf = YfFrame data" and ne: "\<not> empty_frame data" and ok: ok
    using download_returns_frame [OF assms] by blast
  let ?m = "fst (calculate_basis (fst (data_cleaning data)))"
  let ?s = "fst (get_china_bond_yield ak today)"
  obtain m' w4 where a: "add_china_bond_yield ?m ?s = Inr (m', w4)"
    using assms y by (cases "add_china_bond_yield ?m ?s") (auto simp: download_unfold [OF ne])
  obtain c where c: "m' = set_column ''China_10Y_Treasury_Yield'' c ?m" "length c = length (index ?m)"
    using add_china_bond_yield_shape [OF a] by blast
  have l: "length c = length (index data)"
    using c(2) by (simp add: index_panel_before_bond)
  have "df = bfill (ffill m')"
    and "msgs = snd (data_cleaning data) @ snd (calculate_basis (fst (data_cleaning data)))
                    @ snd (get_china_bond_yield ak today) @ w4"
    using assms y a ok c(1) by (simp_all add: download_unfold [OF ne] final_fill_with_bond)
  then show ?thesis
    using y ne ok a c(1) l by blast
qed

lemma download_total:
  assumes "\<not> empty_frame data" and ok
    and "\<forall>h rows. ak = AkFrame h rows \<longrightarrow> sorted_wrt (<) (map fst rows)"
  shows "\<exists>out msgs. download_gold_training_data (YfFrame data) ak today ok = (Inr (Some out), msgs)"
proof -
  have "sorted_wrt (<) (map fst (fst (get_china_bond_yield ak today)))"
    using assms(3) by (intro bond_yield_ascending) blast
  then obtain c w where
    "add_china_bond_yield (fst (calculate_basis (fst (data_cleaning data))))
        (fst (get_china_bond_yield ak today))
       = Inr (set_column ''China_10Y_Treasury_Yield'' c
                (fst (calculate_basis (fst (data_cleaning data)))), w)"
    using add_china_bond_yield_total bond_yield_nonempty by blast
  then show ?thesis
    using assms(2) by (simp add: download_unfold [OF assms(1)])
qed

lemma calculate_basis_present:
  "get_column m ''GOLD_spot_price'' = Some a \<Longrightarrow> get_column m ''GOLD_near_month_future'' = Some b \<Longrightarrow>
   calculate_basis m = (set_column ''GOLD_basis_spot_vs_near'' (col_sub a b) m, [])"
  by (simp add: calculate_basis_def)

lemma calculate_basis_absent:
  "get_column m ''GOLD_spot_price'' = None \<or> get_column m ''GOLD_near_month_future'' = None \<Longrightarrow>
   calculate_basis m = (m, [WarnBasisMissing])"
  by (auto simp: calculate_basis_def split: option.splits)

lemma returned_panel_column:
  assumes "k \<noteq> ''China_10Y_Treasury_Yield''"
  shows "get_column (bfill (ffill (set_column ''China_10Y_Treasury_Yield'' c mb))) k
           = map_option (\<lambda>c. bfill_col (ffill_col c)) (get_column mb k)"
  using assms by (simp add: get_column_fill get_column_set_column)

lemma basis_in_returned_panel:
  assumes wf: "wf_frame data"
    and nb: "''GOLD_basis_spot_vs_near'' \<notin> set (map fst (columns data))"
    and dl: "download_gold_training_data (YfFrame data) ak today ok = (Inr (Some out), msgs)"
  shows "case (get_column out ''GOLD_spot_price'', get_column out ''GOLD_near_month_future'') of
           (Some spot, Some future) \<Rightarrow>
               get_column out ''GOLD_basis_spot_vs_near'' = Some (col_sub spot future)
             \<and> length spot = length (index out) \<and> length future = length (index out)
             \<and> (\<forall>i<length (index out). \<exists>x y. spot ! i = Some x \<and> future ! i = Some y
                    \<and> col_sub spot future ! i = Some (x - y))
             \<and> WarnBasisMissing \<notin> set msgs
         | _ \<Rightarrow> get_column out ''GOLD_basis_spot_vs_near'' = None \<and> WarnBasisMissing \<in> set msgs"
proof -
  let ?m = "fst (data_cleaning data)"
  let ?mb = "fst (calculate_basis ?m)"
  obtain c w4 where
    a: "add_china_bond_yield ?mb (fst (get_china_bond_yield ak today))
          = Inr (set_column ''China_10Y_Treasury_Yield'' c ?mb, w4)"
    and out: "out = bfill (ffill (set_column ''China_10Y_Treasury_Yield'' c ?mb))"
    and msgs: "msgs = snd (data_cleaning data) @ snd (calculate_basis ?m)
                    @ snd (get_china_bond_yield ak today) @ w4"
    using download_returns_detail [OF dl] by auto
  have idx: "length (index out) = length (index data)"
    by (simp add: out index_fill index_set_column index_panel_before_bond)
  have spot: "get_column out ''GOLD_spot_price'' =
                map_option (\<lambda>c. bfill_col (ffill_col c)) (get_column ?mb ''GOLD_spot_price'')"
    unfolding out by (rule returned_panel_column) simp
  have fut: "get_column out ''GOLD_near_month_future'' =
                map_option (\<lambda>c. bfill_col (ffill_col c)) (get_column ?mb ''GOLD_near_month_future'')"
    unfolding out by (rule returned_panel_column) simp
  have bas: "get_column out ''GOLD_basis_spot_vs_near'' =
                map_option (\<lambda>c. bfill_col (ffill_col c)) (get_column ?mb ''GOLD_basis_spot_vs_near'')"
    unfolding out by (rule returned_panel_column) simp
  have others: "WarnBasisMissing \<notin> set (snd (data_cleaning data))"
    "WarnBasisMissing \<notin> set (snd (get_china_bond_yield ak today))"
    "WarnBasisMissing \<notin> set w4"
    using cleaning_messages bond_yield_messages reconcile_messages [OF a] by blast+
  show ?thesis
  proof (cases "get_column ?m ''GOLD_spot_price'' = None \<or> get_column ?m ''GOLD_near_month_future'' = None")
    case True
    then have cb: "calculate_basis ?m = (?m, [WarnBasisMissing])"
      by (rule calculate_basis_absent)
    have "get_column out ''GOLD_basis_spot_vs_near'' = None"
      using bas cb no_basis_after_cleaning [OF nb] by simp
    moreover have "WarnBasisMissing \<in> set msgs"
      using msgs cb by simp
    moreover have "get_column out ''GOLD_spot_price'' = None \<or> get_column out ''GOLD_near_month_future'' = None"
      using True spot fut cb by auto
    ultimately show ?thesis
      by (auto split: option.splits)
  next
    case False
    then obtain s0 f0 where s0: "get_column ?m ''GOLD_spot_price'' = Some s0"
      and f0: "get_column ?m ''GOLD_near_month_future'' = Some f0"
      by auto
    have cb: "calculate_basis ?m = (set_column ''GOLD_basis_spot_vs_near'' (col_sub s0 f0) ?m, [])"
      using s0 f0 by (rule calculate_basis_present)
    have ps: "None \<notin> set s0" "length s0 = length (index data)"
      using cleaned_column [OF wf s0] by simp_all
    have pf: "None \<notin> set f0" "length f0 = length (index data)"
      using cleaned_column [OF wf f0] by simp_all
    have os: "get_column out ''GOLD_spot_price'' = Some s0"
      using spot cb s0 ps(1) by (simp add: get_column_set_column fill_no_nan)
    have "of": "get_column out ''GOLD_near_month_future'' = Some f0"
      using fut cb f0 pf(1) by (simp add: get_column_set_column fill_no_nan)
    have ob: "get_column out ''GOLD_basis_spot_vs_near'' = Some (col_sub s0 f0)"
      using bas cb col_sub_no_nan [OF ps(1) pf(1)] by (simp add: get_column_set_column fill_no_nan)
    have nth: "\<forall>i<length (index out). \<exists>x y. s0 ! i = Some x \<and> f0 ! i = Some y
                    \<and> col_sub s0 f0 ! i = Some (x - y)"
      using col_sub_nth [OF ps(1) pf(1)] ps(2) pf(2) idx by simp
    have "WarnBasisMissing \<notin> set msgs"
      using msgs cb others by simp
    then show ?thesis
      using os "of" ob nth ps(2) pf(2) idx by simp
  qed
qed

text \<open>
  C6. In the panel that the download function returns, the basis column is there exactly
  when the spot column and the near-month future column are; it then holds, in every row,
  the spot price minus the future price, and no warning about the basis is recorded. When
  either column is missing, the basis step passes the panel on unchanged and records the
  warning, the returned panel has no basis column, and the function still returns a panel
  whenever the table can be saved and the bond dates are ascending. The downloaded table
  is taken to have one cell per row in every column and no column that is already named as
  the basis column.
\<close>

theorem basis_is_spot_minus_future:
  assumes "wf_frame data" and "''GOLD_basis_spot_vs_near'' \<notin> set (map fst (columns data))"
  shows "(\<not> empty_frame data \<and> ok
            \<and> (\<forall>h rows. ak = AkFrame h rows \<longrightarrow> sorted_wrt (<) (map fst rows)) \<longrightarrow>
            (\<exists>df w. download_gold_training_data (YfFrame data) ak today ok = (Inr (Some df), w)))
       \<and> (download_gold_training_data (YfFrame data) ak today ok = (Inr (Some out), msgs) \<longrightarrow>
            (case (get_column out ''GOLD_spot_price'', get_column out ''GOLD_near_month_future'') of
               (Some spot, Some future) \<Rightarrow>
                   get_column out ''GOLD_basis_spot_vs_near'' = Some (col_sub spot future)
                 \<and> length spot = length (index out) \<and> length future = length (index out)
                 \<and> (\<forall>i<length (index out). \<exists>x y. spot ! i = Some x \<and> future ! i = Some y
                        \<and> col_sub spot future ! i = Some (x - y))
                 \<and> WarnBasisMissing \<notin> set msgs
             | _ \<Rightarrow> get_column out ''GOLD_basis_spot_vs_near'' = None \<and> WarnBasisMissing \<in> set msgs))
       \<and> (get_column m ''GOLD_spot_price'' = None \<or> get_column m ''GOLD_near_month_future'' = None \<longrightarrow>
            calculate_basis m = (m, [WarnBasisMissing]))"
proof (intro conjI impI)
  assume "\<not> empty_frame data \<and> ok
            \<and> (\<forall>h rows. ak = AkFrame h rows \<longrightarrow> sorted_wrt (<) (map fst rows))"
  then show "\<exists>df w. download_gold_training_data (YfFrame data) ak today ok = (Inr (Some df), w)"
    using download_total by blast
next
  assume "download_gold_training_data (YfFrame data) ak today ok = (Inr (Some out), msgs)"
  then show "case (get_column out ''GOLD_spot_price'', get_column out ''GOLD_near_month_future'') of
               (Some spot, Some future) \<Rightarrow>
                   get_column out ''GOLD_basis_spot_vs_near'' = Some (col_sub spot future)
                 \<and> length spot = length (index out) \<and> length future = length (index out)
                 \<and> (\<forall>i<length (index out). \<exists>x y. spot ! i = Some x \<and> future ! i = Some y
                        \<and> col_sub spot future ! i = Some (x - y))
                 \<and> WarnBasisMissing \<notin> set msgs
             | _ \<Rightarrow> get_column out ''GOLD_basis_spot_vs_near'' = None \<and> WarnBasisMissing \<in> set msgs"
    by (rule basis_in_returned_panel [OF assms])
next
  assume "get_column m ''GOLD_spot_price'' = None \<or> get_column m ''GOLD_near_month_future'' = None"
  then show "calculate_basis m = (m, [WarnBasisMissing])"
    by (rule calculate_basis_absent)
qed


lemma basis_example:
  "download_gold_training_data
     (YfFrame \<lparr>index = [1, 2, 3],
               columns = [(''GC=F'', [Some 10, Some 11, Some 12]),
                          (''MGC=F'', [Some 9, Some (19 / 2), Some 10])]\<rparr>)
     (AkFrame True [(2, Some 5)]) 3 True
   = (Inr (Some \<lparr>index = [1, 2, 3],
                  columns = [(''GOLD_spot_price'', [Some 10, Some 11, Some 12]),
                             (''GOLD_near_month_future'', [Some 9, Some (19 / 2), Some 10]),
                             (''GOLD_basis_spot_vs_near'', [Some 1, Some (3 / 2), Some 2]),
                             (''China_10Y_Treasury_Yield'', [Some 5, Some 5, Some 5])]\<rparr>), [])"
  by code_simp

lemma no_future_example:
  "download_gold_training_data
     (YfFrame \<lparr>index = [1, 2, 3], columns = [(''GC=F'', [Some 10, Some 11, Some 12])]\<rparr>)
     (AkFrame True [(2, Some 5)]) 3 True
   = (Inr (Some \<lparr>index = [1, 2, 3],
                  columns = [(''GOLD_spot_price'', [Some 10, Some 11, Some 12]),
                             (''China_10Y_Treasury_Yield'', [Some 5, Some 5, Some 5])]\<rparr>),
      [WarnBasisMissing])"
  by code_simp

theorem basis_is_spot_minus_future_witness:
  "wf_frame \<lparr>index = [1, 2, 3],
             columns = [(''GC=F'', [Some 10, Some 11, Some 12]),
                        (''MGC=F'', [Some 9, Some (19 / 2), Some 10])]\<rparr>
   \<and> ''GOLD_basis_spot_vs_near'' \<notin> set [''GC=F'', ''MGC=F'']
   \<and> download_gold_training_data
        (YfFrame \<lparr>index = [1, 2, 3],
                  columns = [(''GC=F'', [Some 10, Some 11, Some 12]),
                             (''MGC=F'', [Some 9, Some (19 / 2), Some 10])]\<rparr>)
        (AkFrame True [(2, Some 5)]) 3 True
      = (Inr (Some \<lparr>index = [1, 2, 3],
                  columns = [(''GOLD_spot_price'', [Some 10, Some 11, Some 12]),
                             (''GOLD_near_month_future'', [Some 9, Some (19 / 2), Some 10]),
                             (''GOLD_basis_spot_vs_near'', [Some 1, Some (3 / 2), Some 2]),
                             (''China_10Y_Treasury_Yield'', [Some 5, Some 5, Some 5])]\<rparr>), [])
   \<and> download_gold_training_data
        (YfFrame \<lparr>index = [1, 2, 3], columns = [(''GC=F'', [Some 10, Some 11, Some 12])]\<rparr>)
        (AkFrame True [(2, Some 5)]) 3 True
      = (Inr (Some \<lparr>index = [1, 2, 3],
                  columns = [(''GOLD_spot_price'', [Some 10, Some 11, Some 12]),
                             (''China_10Y_Treasury_Yield'', [Some 5, Some 5, Some 5])]\<rparr>),
         [WarnBasisMissing])"
  using basis_is_spot_minus_future
    [of "\<lparr>index = [1, 2, 3],
           columns = [(''GC=F'', [Some 10, Some 11, Some 12]),
                      (''MGC=F'', [Some 9, Some (19 / 2), Some 10])]\<rparr>"
        True "AkFrame True [(2, Some 5)]" 3]
  by (simp add: basis_example no_future_example wf_frame_def)

section \<open>Properties of the forward-filling lookup\<close>

lemma pad_empty: "filter (\<lambda>r. fst r \<le> d) s = [] \<Longrightarrow> pad s d = None"
  by (simp add: pad_def)

lemma pad_nonempty:
  "filter (\<lambda>r. fst r \<le> d) s \<noteq> [] \<Longrightarrow> pad s d = snd (last (filter (\<lambda>r. fst r \<le> d) s))"
  by (cases "filter (\<lambda>r. fst r \<le> d) s") (simp_all add: pad_def)

lemma sorted_partition:
  "sorted (map fst (xs :: series)) \<Longrightarrow>
   xs = filter (\<lambda>r. fst r < a) xs @ filter (\<lambda>r. a \<le> fst r) xs"
proof (induction xs)
  case Nil
  then show ?case by simp
next
  case (Cons x xs)
  show ?case
  proof (cases "fst x < a")
    case True
    then show ?thesis using Cons by simp
  next
    case False
    then have "\<forall>r\<in>set xs. a \<le> fst r"
      using Cons.prems by auto
    then have "filter (\<lambda>r. fst r < a) xs = []" and "filter (\<lambda>r. a \<le> fst r) xs = xs"
      by (auto simp: filter_empty_conv filter_id_conv)
    then show ?thesis using False by simp
  qed
qed

lemma sorted_fst_le_last:
  "sorted (map fst (xs :: series)) \<Longrightarrow> r \<in> set xs \<Longrightarrow> fst r \<le> fst (last xs)"
  by (induction xs) (auto simp: last_in_set)

lemma sorted_fst_hd_le:
  "sorted (map fst (xs :: series)) \<Longrightarrow> r \<in> set xs \<Longrightarrow> fst (hd xs) \<le> fst r"
  by (cases xs) auto

lemma sorted_filter_fst:
  "sorted (map fst (xs :: series)) \<Longrightarrow> sorted (map fst (filter P xs))"
  by (simp add: sorted_wrt_map sorted_wrt_filter)

lemma pad_clip:
  assumes srt: "sorted (map fst s)" and hi: "d \<le> hi"
    and ne: "filter (\<lambda>r. fst r \<le> d) (clip_to lo hi s) \<noteq> []"
  shows "pad (clip_to lo hi s) d = pad s d"
proof -
  let ?R = "filter (\<lambda>r. fst r \<le> d) s"
  have eq: "filter (\<lambda>r. fst r \<le> d) (clip_to lo hi s) = filter (\<lambda>r. lo \<le> fst r) ?R"
    using hi unfolding clip_to_def filter_filter by (intro filter_cong) auto
  have "sorted (map fst ?R)" using srt by (rule sorted_filter_fst)
  then have "?R = filter (\<lambda>r. fst r < lo) ?R @ filter (\<lambda>r. lo \<le> fst r) ?R"
    by (rule sorted_partition)
  then have "last ?R = last (filter (\<lambda>r. lo \<le> fst r) ?R)"
    using ne eq by (metis last_appendR)
  moreover have "?R \<noteq> []" using ne eq by (metis filter.simps(1))
  ultimately show ?thesis
    using ne by (simp add: pad_nonempty eq)
qed

lemma pad_latest:
  assumes srt: "sorted (map fst s)" and ne: "filter (\<lambda>r. fst r \<le> d) s \<noteq> []"
  shows "\<exists>t x. (t, x) \<in> set s \<and> t \<le> d \<and> (\<forall>r\<in>set s. fst r \<le> d \<longrightarrow> fst r \<le> t) \<and> pad s d = x"
proof -
  let ?R = "filter (\<lambda>r. fst r \<le> d) s"
  have m: "last ?R \<in> set ?R" using ne by (rule last_in_set)
  have s: "sorted (map fst ?R)" using srt by (rule sorted_filter_fst)
  have "\<forall>r\<in>set s. fst r \<le> d \<longrightarrow> fst r \<le> fst (last ?R)"
    using sorted_fst_le_last [OF s] by simp
  moreover have "(fst (last ?R), snd (last ?R)) \<in> set s" and "fst (last ?R) \<le> d"
    using m by simp_all
  moreover have "pad s d = snd (last ?R)" using ne by (rule pad_nonempty)
  ultimately show ?thesis by blast
qed

section \<open>The fills on a column whose NaN cells are the leading ones\<close>

lemma bfill_leading:
  assumes "sorted idx" and "\<exists>d\<in>set idx. d0 \<le> d"
    and "\<forall>d\<in>set idx. (f d = None) = (d < d0)"
  shows "bfill_col (map f idx) =
           map (\<lambda>d. if d0 \<le> d then f d else f (hd (filter (\<lambda>d. d0 \<le> d) idx))) (idx :: int list)"
  using assms
proof (induction idx)
  case Nil
  then show ?case by simp
next
  case (Cons d ds)
  show ?case
  proof (cases "d0 \<le> d")
    case True
    then have "\<forall>e\<in>set (d # ds). d0 \<le> e" using Cons.prems(1) by auto
    then have "\<forall>e\<in>set (d # ds). f e \<noteq> None" using Cons.prems(3) by (meson not_less)
    then have "None \<notin> set (map f (d # ds))" by (auto simp: image_iff)
    then have "bfill_col (map f (d # ds)) = map f (d # ds)" by (rule bfill_col_no_nan)
    moreover have "map f (d # ds) =
        map (\<lambda>e. if d0 \<le> e then f e else f (hd (filter (\<lambda>d. d0 \<le> d) (d # ds)))) (d # ds)"
      using \<open>\<forall>e\<in>set (d # ds). d0 \<le> e\<close> by (intro map_cong) auto
    ultimately show ?thesis by simp
  next
    case False
    then have fd: "f d = None" using Cons.prems(3) by auto
    have ex: "\<exists>e\<in>set ds. d0 \<le> e" using Cons.prems(2) False by auto
    then have ne: "ds \<noteq> []" by auto
    have IH: "bfill_col (map f ds) =
           map (\<lambda>e. if d0 \<le> e then f e else f (hd (filter (\<lambda>d. d0 \<le> d) ds))) ds"
      using Cons.IH Cons.prems(1,3) ex by simp
    have flt: "filter (\<lambda>d. d0 \<le> d) (d # ds) = filter (\<lambda>d. d0 \<le> d) ds"
      using False by simp
    obtain e es where ds: "ds = e # es" using ne by (cases ds) auto
    have hd_val: "(case bfill_col (map f ds) of [] \<Rightarrow> None | y # _ \<Rightarrow> y)
                    = f (hd (filter (\<lambda>d. d0 \<le> d) ds))"
      unfolding IH by (simp add: ds)
    show ?thesis
      using False fd hd_val IH flt by simp
  qed
qed

lemma ffill_leading:
  assumes "sorted idx" and "\<forall>d\<in>set idx. (f d = None) = (d < d0)"
  shows "ffill_col (map f idx) = map f (idx :: int list)"
  using assms unfolding ffill_col_def
proof (induction idx)
  case Nil
  then show ?case by simp
next
  case (Cons d ds)
  show ?case
  proof (cases "d0 \<le> d")
    case True
    then have "\<forall>e\<in>set (d # ds). d0 \<le> e" using Cons.prems(1) by auto
    then have "\<forall>e\<in>set (d # ds). f e \<noteq> None" using Cons.prems(2) by (meson not_less)
    then have "None \<notin> set (map f (d # ds))" by (auto simp: image_iff)
    then show ?thesis by (rule ffill_from_no_nan)
  next
    case False
    then have "f d = None" using Cons.prems(2) by auto
    then show ?thesis using Cons by simp
  qed
qed

section \<open>The bond column of the returned panel\<close>

lemma set_index_panel_before_bond:
  "set (index (fst (calculate_basis (fst (data_cleaning data))))) = set (index data)"
  by (simp add: index_panel_before_bond)

lemma post_dated_series:
  assumes "sorted_wrt (<) (map fst s)" and "s \<noteq> []" and "\<forall>r\<in>set s. hi < fst r"
  shows "clip_to lo hi s = [] \<and> (\<exists>r. resample_D_ffill s = Inr r \<and> clip_to lo hi r = [])"
proof -
  have c: "clip_to lo hi s = []"
    using assms(3) by (auto simp: clip_to_def filter_empty_conv)
  have r: "resample_D_ffill s = Inr (map (\<lambda>d. (d, pad s d)) [fst (hd s)..fst (last s)])"
    using assms(1,2) by (rule resample_ascending)
  have "hi < fst (hd s)" using assms(2,3) by simp
  then have "clip_to lo hi (map (\<lambda>d. (d, pad s d)) [fst (hd s)..fst (last s)]) = []"
    by (auto simp: clip_to_def filter_empty_conv)
  then show ?thesis using c r by blast
qed

lemma reconcile_default_messages:
  "[WarnBondFilterEmpty, WarnBondDefault] = w \<Longrightarrow> WarnBondDefault \<in> set w"
  by auto

text \<open>
  C5. When the bond series has no row inside the panel's date range, and its daily
  resampling has none either, the returned panel holds the constant 2.5 in every row of
  the bond column, so the column has no undefined cell, and the warning that the default
  is used is recorded. A series with ascending dates that all lie after the panel's last
  date is such a series.
\<close>

theorem bond_default_when_no_overlap:
  assumes "\<not> empty_frame data" and "ok"
    and "clip_to (Min (set (index data))) (Max (set (index data)))
           (fst (get_china_bond_yield ak today)) = []"
    and "resample_D_ffill (fst (get_china_bond_yield ak today)) = Inr r"
    and "clip_to (Min (set (index data))) (Max (set (index data))) r = []"
  shows "(\<exists>out msgs.
            download_gold_training_data (YfFrame data) ak today ok = (Inr (Some out), msgs)
          \<and> index out = sort (index data)
          \<and> get_column out ''China_10Y_Treasury_Yield''
              = Some (replicate (length (index out)) (Some 2.5))
          \<and> WarnBondDefault \<in> set msgs)
       \<and> (sorted_wrt (<) (map fst s) \<and> s \<noteq> [] \<and> (\<forall>x\<in>set s. hi < fst x) \<longrightarrow>
            clip_to lo hi s = [] \<and> (\<exists>r'. resample_D_ffill s = Inr r' \<and> clip_to lo hi r' = []))"
proof (intro conjI impI)
  let ?mb = "fst (calculate_basis (fst (data_cleaning data)))"
  let ?s = "fst (get_china_bond_yield ak today)"
  let ?c = "replicate (length (index ?mb)) (Some (5 / 2 :: real))"
  have a: "add_china_bond_yield ?mb ?s =
             Inr (set_column ''China_10Y_Treasury_Yield'' ?c ?mb, [WarnBondFilterEmpty, WarnBondDefault])"
    using add_china_bond_yield_default [of ?s ?mb r] assms(3,4,5) bond_yield_nonempty [of ak today]
    by (simp add: set_index_panel_before_bond set_constant_column)
  let ?out = "bfill (ffill (set_column ''China_10Y_Treasury_Yield'' ?c ?mb))"
  have d: "download_gold_training_data (YfFrame data) ak today ok =
      (Inr (Some ?out),
       snd (data_cleaning data) @ snd (calculate_basis (fst (data_cleaning data)))
           @ snd (get_china_bond_yield ak today) @ [WarnBondFilterEmpty, WarnBondDefault])"
    using assms(2) by (simp add: download_unfold [OF assms(1)] a final_fill_with_bond)
  have i: "index ?out = sort (index data)"
    by (simp add: index_fill index_set_column index_panel_before_bond)
  have "None \<notin> set ?c" by simp
  then have "bfill_col (ffill_col ?c) = ?c" by (rule fill_no_nan)
  then have g: "get_column ?out ''China_10Y_Treasury_Yield'' = Some (replicate (length (index ?out)) (Some 2.5))"
    by (simp add: get_column_fill get_column_set_column index_fill index_set_column)
  show "\<exists>out msgs.
            download_gold_training_data (YfFrame data) ak today ok = (Inr (Some out), msgs)
          \<and> index out = sort (index data)
          \<and> get_column out ''China_10Y_Treasury_Yield''
              = Some (replicate (length (index out)) (Some 2.5))
          \<and> WarnBondDefault \<in> set msgs"
    by (intro exI conjI) (rule d, rule i, rule g, simp)
next
  assume "sorted_wrt (<) (map fst s) \<and> s \<noteq> [] \<and> (\<forall>x\<in>set s. hi < fst x)"
  then show "clip_to lo hi s = []" and "\<exists>r'. resample_D_ffill s = Inr r' \<and> clip_to lo hi r' = []"
    using post_dated_series [of s hi lo] by blast+
qed

lemma post_dated_example:
  "download_gold_training_data
     (YfFrame \<lparr>index = [1, 2, 3], columns = [(''GC=F'', [Some 10, Some 11, Some 12])]\<rparr>)
     (AkFrame True [(7, Some 5)]) 9 True
   = (Inr (Some \<lparr>index = [1, 2, 3],
                  columns = [(''GOLD_spot_price'', [Some 10, Some 11, Some 12]),
                             (''China_10Y_Treasury_Yield'', [Some (5 / 2), Some (5 / 2), Some (5 / 2)])]\<rparr>),
      [WarnBasisMissing, WarnBondFilterEmpty, WarnBondDefault])"
  by code_simp

lemma post_dated_example_clips:
  "clip_to (Min (set (index \<lparr>index = [1, 2, 3], columns = [(''GC=F'', [Some 10, Some 11, Some 12])]\<rparr>)))
           (Max (set (index \<lparr>index = [1, 2, 3], columns = [(''GC=F'', [Some 10, Some 11, Some 12])]\<rparr>)))
           (fst (get_china_bond_yield (AkFrame True [(7, Some 5)]) 9)) = []"
  "resample_D_ffill (fst (get_china_bond_yield (AkFrame True [(7, Some 5)]) 9)) = Inr [(7, Some 5)]"
  "clip_to (Min (set (index \<lparr>index = [1, 2, 3], columns = [(''GC=F'', [Some 10, Some 11, Some 12])]\<rparr>)))
           (Max (set (index \<lparr>index = [1, 2, 3], columns = [(''GC=F'', [Some 10, Some 11, Some 12])]\<rparr>)))
           [(7, Some 5)] = []"
  by code_simp+

theorem bond_default_when_no_overlap_witness:
  "\<not> empty_frame \<lparr>index = [1, 2, 3], columns = [(''GC=F'', [Some 10, Some 11, Some 12])]\<rparr>
   \<and> clip_to 1 3 (fst (get_china_bond_yield (AkFrame True [(7, Some 5)]) 9)) = []
   \<and> resample_D_ffill (fst (get_china_bond_yield (AkFrame True [(7, Some 5)]) 9)) = Inr [(7, Some 5)]
   \<and> clip_to 1 3 [(7, Some 5)] = []
   \<and> download_gold_training_data
       (YfFrame \<lparr>index = [1, 2, 3], columns = [(''GC=F'', [Some 10, Some 11, Some 12])]\<rparr>)
       (AkFrame True [(7, Some 5)]) 9 True
     = (Inr (Some \<lparr>index = [1, 2, 3],
                  columns = [(''GOLD_spot_price'', [Some 10, Some 11, Some 12]),
                             (''China_10Y_Treasury_Yield'', [Some (5 / 2), Some (5 / 2), Some (5 / 2)])]\<rparr>),
        [WarnBasisMissing, WarnBondFilterEmpty, WarnBondDefault])"
  using bond_default_when_no_overlap
    [of "\<lparr>index = [1, 2, 3], columns = [(''GC=F'', [Some 10, Some 11, Some 12])]\<rparr>"
        True "AkFrame True [(7, Some 5)]" 9 "[(7, Some 5)]"]
    post_dated_example_clips
  by (simp add: post_dated_example empty_frame_def)

lemma clip_dates:
  "r \<in> set (clip_to lo hi s) \<Longrightarrow> r \<in> set s \<and> lo \<le> fst r \<and> fst r \<le> hi"
  by (simp add: clip_to_def)

lemma pad_clip_cases:
  assumes asc: "sorted_wrt (<) (map fst s)"
    and ne: "clip_to lo hi s \<noteq> []"
    and vals: "\<forall>r\<in>set s. snd r \<noteq> None"
    and d: "d \<le> hi"
  shows "(pad (clip_to lo hi s) d = None) = (d < fst (hd (clip_to lo hi s)))"
    and "fst (hd (clip_to lo hi s)) \<le> d \<Longrightarrow> pad (clip_to lo hi s) d = pad s d"
    and "fst (hd (clip_to lo hi s)) \<le> d \<Longrightarrow>
           \<exists>t v. (t, Some v) \<in> set s \<and> t \<le> d \<and> (\<forall>r\<in>set s. fst r \<le> d \<longrightarrow> fst r \<le> t)
                 \<and> pad s d = Some v"
proof -
  let ?C = "clip_to lo hi s"
  have srt: "sorted (map fst s)" using asc by (simp add: strict_sorted_iff)
  have srtC: "sorted (map fst ?C)"
    unfolding clip_to_def using srt by (rule sorted_filter_fst)
  have hdC: "hd ?C \<in> set ?C" using ne by simp
  have above: "fst (hd ?C) \<le> d \<Longrightarrow> filter (\<lambda>r. fst r \<le> d) ?C \<noteq> []"
    using hdC by (auto simp: filter_empty_conv)
  have below: "d < fst (hd ?C) \<Longrightarrow> filter (\<lambda>r. fst r \<le> d) ?C = []"
    using sorted_fst_hd_le [OF srtC] by (fastforce simp: filter_empty_conv)
  have known: "fst (hd ?C) \<le> d \<Longrightarrow> pad ?C d = pad s d"
    using pad_clip [OF srt d] above by blast
  have latest: "fst (hd ?C) \<le> d \<Longrightarrow>
           \<exists>t v. (t, Some v) \<in> set s \<and> t \<le> d \<and> (\<forall>r\<in>set s. fst r \<le> d \<longrightarrow> fst r \<le> t)
                 \<and> pad s d = Some v"
  proof -
    assume h: "fst (hd ?C) \<le> d"
    have "filter (\<lambda>r. fst r \<le> d) s \<noteq> []"
      using hdC h clip_dates [of "hd ?C" lo hi s] by (auto simp: filter_empty_conv)
    then obtain t x where tx: "(t, x) \<in> set s" "t \<le> d" "\<forall>r\<in>set s. fst r \<le> d \<longrightarrow> fst r \<le> t"
      "pad s d = x"
      using pad_latest [OF srt] by blast
    obtain v where "x = Some v" using tx(1) vals by fastforce
    then show ?thesis using tx by blast
  qed
  show "(pad ?C d = None) = (d < fst (hd ?C))"
  proof (cases "d < fst (hd ?C)")
    case True
    then show ?thesis using below pad_empty by blast
  next
    case False
    then have h: "fst (hd ?C) \<le> d" by simp
    then show ?thesis using known [OF h] latest [OF h] by auto
  qed
  show "fst (hd ?C) \<le> d \<Longrightarrow> pad ?C d = pad s d" by (rule known)
  show "fst (hd ?C) \<le> d \<Longrightarrow>
           \<exists>t v. (t, Some v) \<in> set s \<and> t \<le> d \<and> (\<forall>r\<in>set s. fst r \<le> d \<longrightarrow> fst r \<le> t)
                 \<and> pad s d = Some v" by (rule latest)
qed

lemma fill_reindexed:
  assumes asc: "sorted_wrt (<) (map fst s)"
    and ne: "clip_to (Min (set idx)) (Max (set idx)) s \<noteq> []"
    and vals: "\<forall>r\<in>set s. snd r \<noteq> None"
    and srt: "sorted idx" and idx: "idx \<noteq> []"
  shows "bfill_col (ffill_col (map (pad (clip_to (Min (set idx)) (Max (set idx)) s)) idx)) =
           map (\<lambda>d. if fst (hd (clip_to (Min (set idx)) (Max (set idx)) s)) \<le> d
                    then pad (clip_to (Min (set idx)) (Max (set idx)) s) d
                    else pad (clip_to (Min (set idx)) (Max (set idx)) s)
                           (hd (filter (\<lambda>d. fst (hd (clip_to (Min (set idx)) (Max (set idx)) s)) \<le> d) idx)))
               idx"
proof -
  let ?C = "clip_to (Min (set idx)) (Max (set idx)) s"
  have hdC: "hd ?C \<in> set ?C" using ne by simp
  then have d0: "Min (set idx) \<le> fst (hd ?C)" "fst (hd ?C) \<le> Max (set idx)"
    using clip_dates by blast+
  have mx: "Max (set idx) \<in> set idx" using idx by simp
  have none: "\<forall>d\<in>set idx. (pad ?C d = None) = (d < fst (hd ?C))"
    using pad_clip_cases(1) [OF asc ne vals] by simp
  have ex: "\<exists>d\<in>set idx. fst (hd ?C) \<le> d" using mx d0(2) by blast
  have "ffill_col (map (pad ?C) idx) = map (pad ?C) idx"
    using srt none by (rule ffill_leading)
  then show ?thesis
    using bfill_leading [OF srt ex none] by simp
qed

lemma reconciled_bond_column:
  assumes ne: "\<not> empty_frame data" and ok: "ok"
    and asc: "\<forall>h rows. ak = AkFrame h rows \<longrightarrow> sorted_wrt (<) (map fst rows)"
    and ov: "clip_to (Min (set (index data))) (Max (set (index data)))
               (fst (get_china_bond_yield ak today)) \<noteq> []"
  defines "S \<equiv> fst (get_china_bond_yield ak today)"
  defines "C \<equiv> clip_to (Min (set (index data))) (Max (set (index data))) S"
  defines "mb \<equiv> fst (calculate_basis (fst (data_cleaning data)))"
  defines "idx \<equiv> sort (index data)"
  defines "col \<equiv> map (\<lambda>d. if fst (hd C) \<le> d then pad C d
                           else pad C (hd (filter (\<lambda>d. fst (hd C) \<le> d) idx))) idx"
  defines "out \<equiv> bfill (ffill (set_column ''China_10Y_Treasury_Yield'' (map (pad C) idx) mb))"
  shows "add_china_bond_yield mb S =
           Inr (set_column ''China_10Y_Treasury_Yield'' (map (pad C) idx) mb, [])"
    and "\<exists>msgs. download_gold_training_data (YfFrame data) ak today ok = (Inr (Some out), msgs)"
    and "index out = idx"
    and "get_column out ''China_10Y_Treasury_Yield'' = Some col"
    and "length col = length idx"
    and "\<forall>i<length idx. fst (hd C) \<le> idx ! i \<longrightarrow>
           pad C (idx ! i) = col ! i
         \<and> (\<exists>t v. (t, Some v) \<in> set S \<and> t \<le> idx ! i
                \<and> (\<forall>r\<in>set S. fst r \<le> idx ! i \<longrightarrow> fst r \<le> t) \<and> col ! i = Some v)"
    and "\<forall>i<length idx. idx ! i < fst (hd C) \<longrightarrow>
           pad C (idx ! i) = None
         \<and> (\<exists>v. col ! i = Some v \<and> pad S (hd (filter (\<lambda>d. fst (hd C) \<le> d) idx)) = Some v)"
proof -
  have ascS: "sorted_wrt (<) (map fst S)"
    unfolding S_def using asc by (intro bond_yield_ascending) blast
  have vals: "\<forall>r\<in>set S. snd r \<noteq> None"
    unfolding S_def using bond_yield_values by blast
  have sidx: "set idx = set (index data)" by (simp add: idx_def)
  have imb: "index mb = idx" by (simp add: mb_def idx_def index_panel_before_bond)
  have C': "C = clip_to (Min (set idx)) (Max (set idx)) S" by (simp add: C_def sidx)
  have neC: "clip_to (Min (set idx)) (Max (set idx)) S \<noteq> []"
    using ov by (simp add: sidx S_def)
  have srt: "sorted idx" by (simp add: idx_def)
  have nidx: "idx \<noteq> []"
    using ne by (metis empty_frame_def sidx set_empty)
  show a: "add_china_bond_yield mb S =
           Inr (set_column ''China_10Y_Treasury_Yield'' (map (pad C) idx) mb, [])"
    using add_china_bond_yield_overlap [OF ascS, of mb] neC by (simp add: imb C')
  show "\<exists>msgs. download_gold_training_data (YfFrame data) ak today ok = (Inr (Some out), msgs)"
    using a ok unfolding mb_def S_def out_def
    by (simp add: download_unfold [OF ne] final_fill_with_bond)
  show "index out = idx"
    by (simp add: out_def index_fill index_set_column imb)
  have fill: "bfill_col (ffill_col (map (pad C) idx)) = col"
    unfolding col_def C' by (rule fill_reindexed [OF ascS neC vals srt nidx])
  then show "get_column out ''China_10Y_Treasury_Yield'' = Some col"
    by (simp add: out_def get_column_fill get_column_set_column)
  show "length col = length idx" by (simp add: col_def)
  have le_max: "d \<in> set idx \<Longrightarrow> d \<le> Max (set idx)" for d by simp
  have known: "\<exists>t v. (t, Some v) \<in> set S \<and> t \<le> d \<and> (\<forall>r\<in>set S. fst r \<le> d \<longrightarrow> fst r \<le> t)
            \<and> pad C d = Some v \<and> pad S d = Some v"
    if m: "d \<in> set idx" and h: "fst (hd C) \<le> d" for d
  proof -
    have le: "d \<le> Max (set idx)" using m by (rule le_max)
    have h': "fst (hd (clip_to (Min (set idx)) (Max (set idx)) S)) \<le> d"
      using h by (simp only: C')
    have "pad C d = pad S d"
      unfolding C' using ascS neC vals le h' by (rule pad_clip_cases(2))
    moreover have "\<exists>t v. (t, Some v) \<in> set S \<and> t \<le> d
          \<and> (\<forall>r\<in>set S. fst r \<le> d \<longrightarrow> fst r \<le> t) \<and> pad S d = Some v"
      using ascS neC vals le h' by (rule pad_clip_cases(3))
    ultimately show ?thesis by auto
  qed
  show "\<forall>i<length idx. fst (hd C) \<le> idx ! i \<longrightarrow>
           pad C (idx ! i) = col ! i
         \<and> (\<exists>t v. (t, Some v) \<in> set S \<and> t \<le> idx ! i
                \<and> (\<forall>r\<in>set S. fst r \<le> idx ! i \<longrightarrow> fst r \<le> t) \<and> col ! i = Some v)"
  proof (intro allI impI)
    fix i assume i: "i < length idx" and h: "fst (hd C) \<le> idx ! i"
    have c: "col ! i = pad C (idx ! i)" using i h by (simp add: col_def)
    have "idx ! i \<in> set idx" using i by simp
    then obtain t v where "(t, Some v) \<in> set S" "t \<le> idx ! i"
      "\<forall>r\<in>set S. fst r \<le> idx ! i \<longrightarrow> fst r \<le> t" "pad C (idx ! i) = Some v"
      using known [of "idx ! i"] h by blast
    then show "pad C (idx ! i) = col ! i
         \<and> (\<exists>t v. (t, Some v) \<in> set S \<and> t \<le> idx ! i
                \<and> (\<forall>r\<in>set S. fst r \<le> idx ! i \<longrightarrow> fst r \<le> t) \<and> col ! i = Some v)"
      using c by auto
  qed
  have hdC: "hd C \<in> set C" using neC C' by simp
  have "fst (hd C) \<le> Max (set idx)"
    using clip_dates [of "hd C" "Min (set idx)" "Max (set idx)" S] hdC C' by simp
  moreover have "Max (set idx) \<in> set idx" using nidx by simp
  ultimately have fne: "filter (\<lambda>d. fst (hd C) \<le> d) idx \<noteq> []"
    by (auto simp: filter_empty_conv)
  then have e: "hd (filter (\<lambda>d. fst (hd C) \<le> d) idx) \<in> set (filter (\<lambda>d. fst (hd C) \<le> d) idx)"
    by (rule hd_in_set)
  obtain v where v: "pad C (hd (filter (\<lambda>d. fst (hd C) \<le> d) idx)) = Some v"
    "pad S (hd (filter (\<lambda>d. fst (hd C) \<le> d) idx)) = Some v"
    using known [of "hd (filter (\<lambda>d. fst (hd C) \<le> d) idx)"] e by fastforce
  show "\<forall>i<length idx. idx ! i < fst (hd C) \<longrightarrow>
           pad C (idx ! i) = None
         \<and> (\<exists>v. col ! i = Some v \<and> pad S (hd (filter (\<lambda>d. fst (hd C) \<le> d) idx)) = Some v)"
  proof (intro allI impI)
    fix i assume i: "i < length idx" and h: "idx ! i < fst (hd C)"
    have c: "col ! i = pad C (hd (filter (\<lambda>d. fst (hd C) \<le> d) idx))"
      using i h by (simp add: col_def)
    have "idx ! i \<le> Max (set idx)" using i by simp
    then have "pad C (idx ! i) = None"
      using pad_clip_cases(1) [OF ascS neC vals, of "idx ! i"] h unfolding C' by simp
    then show "pad C (idx ! i) = None
         \<and> (\<exists>v. col ! i = Some v \<and> pad S (hd (filter (\<lambda>d. fst (hd C) \<le> d) idx)) = Some v)"
      using c v by simp
  qed
qed

text \<open>
  C2. When the bond series has ascending dates and some row inside the panel's date range,
  the reindexing with forward fill gives every panel date on or after the first such row
  the value of the latest bond row dated on or before it, and leaves the panel dates before
  that row undefined. The fill over the whole panel that follows fills these leading cells
  backward: in the returned panel they hold the value that the column carries at the first
  panel date on or after that row, and the other cells are unchanged.
\<close>

theorem bond_column_after_reconciliation:
  assumes "\<not> empty_frame data" and "ok"
    and "\<forall>h rows. ak = AkFrame h rows \<longrightarrow> sorted_wrt (<) (map fst rows)"
    and "clip_to (Min (set (index data))) (Max (set (index data)))
               (fst (get_china_bond_yield ak today)) \<noteq> []"
  shows "let S = fst (get_china_bond_yield ak today);
             C = clip_to (Min (set (index data))) (Max (set (index data))) S;
             d0 = fst (hd C);
             mb = fst (calculate_basis (fst (data_cleaning data)))
         in \<exists>out msgs col.
              download_gold_training_data (YfFrame data) ak today ok = (Inr (Some out), msgs)
            \<and> index out = sort (index data)
            \<and> add_china_bond_yield mb S =
                Inr (set_column ''China_10Y_Treasury_Yield'' (map (pad C) (index out)) mb, [])
            \<and> get_column out ''China_10Y_Treasury_Yield'' = Some col
            \<and> length col = length (index out)
            \<and> (\<forall>i<length (index out). d0 \<le> index out ! i \<longrightarrow>
                   pad C (index out ! i) = col ! i
                 \<and> (\<exists>t v. (t, Some v) \<in> set S \<and> t \<le> index out ! i
                        \<and> (\<forall>r\<in>set S. fst r \<le> index out ! i \<longrightarrow> fst r \<le> t)
                        \<and> col ! i = Some v))
            \<and> (\<forall>i<length (index out). index out ! i < d0 \<longrightarrow>
                   pad C (index out ! i) = None
                 \<and> (\<exists>v. col ! i = Some v
                        \<and> pad S (hd (filter (\<lambda>d. d0 \<le> d) (index out))) = Some v))"
proof -
  define S where "S = fst (get_china_bond_yield ak today)"
  define C where "C = clip_to (Min (set (index data))) (Max (set (index data))) S"
  define mb where "mb = fst (calculate_basis (fst (data_cleaning data)))"
  define idx where "idx = sort (index data)"
  define col where "col = map (\<lambda>d. if fst (hd C) \<le> d then pad C d
                           else pad C (hd (filter (\<lambda>d. fst (hd C) \<le> d) idx))) idx"
  define out where "out = bfill (ffill (set_column ''China_10Y_Treasury_Yield'' (map (pad C) idx) mb))"
  note r = reconciled_bond_column [OF assms, folded S_def, folded C_def, folded mb_def,
      folded idx_def, folded col_def, folded out_def]
  obtain msgs where d: "download_gold_training_data (YfFrame data) ak today ok = (Inr (Some out), msgs)"
    using r(2) by blast
  have "download_gold_training_data (YfFrame data) ak today ok = (Inr (Some out), msgs)
            \<and> index out = sort (index data)
            \<and> add_china_bond_yield mb S =
                Inr (set_column ''China_10Y_Treasury_Yield'' (map (pad C) (index out)) mb, [])
            \<and> get_column out ''China_10Y_Treasury_Yield'' = Some col
            \<and> length col = length (index out)
            \<and> (\<forall>i<length (index out). fst (hd C) \<le> index out ! i \<longrightarrow>
                   pad C (index out ! i) = col ! i
                 \<and> (\<exists>t v. (t, Some v) \<in> set S \<and> t \<le> index out ! i
                        \<and> (\<forall>r\<in>set S. fst r \<le> index out ! i \<longrightarrow> fst r \<le> t)
                        \<and> col ! i = Some v))
            \<and> (\<forall>i<length (index out). index out ! i < fst (hd C) \<longrightarrow>
                   pad C (index out ! i) = None
                 \<and> (\<exists>v. col ! i = Some v
                        \<and> pad S (hd (filter (\<lambda>d. fst (hd C) \<le> d) (index out))) = Some v))"
    unfolding r(3) using d r(1,4,5,6,7) idx_def by blast
  then show ?thesis
    unfolding Let_def S_def [symmetric] C_def [symmetric] mb_def [symmetric] by blast
qed

lemma overlap_example_clip:
  "clip_to (Min (set (index \<lparr>index = [1, 2, 3], columns = [(''GC=F'', [Some 10, Some 11, Some 12])]\<rparr>)))
           (Max (set (index \<lparr>index = [1, 2, 3], columns = [(''GC=F'', [Some 10, Some 11, Some 12])]\<rparr>)))
           (fst (get_china_bond_yield (AkFrame True [(2, Some 5)]) 3)) = [(2, Some 5)]"
  by code_simp

theorem bond_column_after_reconciliation_witness:
  "\<not> empty_frame \<lparr>index = [1, 2, 3], columns = [(''GC=F'', [Some 10, Some 11, Some 12])]\<rparr>
   \<and> sorted_wrt (<) (map fst [(2 :: int, Some (5 :: real))])
   \<and> clip_to 1 3 (fst (get_china_bond_yield (AkFrame True [(2, Some 5)]) 3)) = [(2, Some 5)]
   \<and> map (pad [(2, Some 5)]) [1, 2, 3] = [None, Some 5, Some 5]
   \<and> download_gold_training_data
        (YfFrame \<lparr>index = [1, 2, 3], columns = [(''GC=F'', [Some 10, Some 11, Some 12])]\<rparr>)
        (AkFrame True [(2, Some 5)]) 3 True
      = (Inr (Some \<lparr>index = [1, 2, 3],
                  columns = [(''GOLD_spot_price'', [Some 10, Some 11, Some 12]),
                             (''China_10Y_Treasury_Yield'', [Some 5, Some 5, Some 5])]\<rparr>),
         [WarnBasisMissing])"
  using bond_column_after_reconciliation
    [of "\<lparr>index = [1, 2, 3], columns = [(''GC=F'', [Some 10, Some 11, Some 12])]\<rparr>"
        True "AkFrame True [(2, Some 5)]" 3]
    overlap_example_clip
  by (simp add: no_future_example pad_def empty_frame_def)

text \<open>
  In the counterexample the panel has the dates 1, 2, 3 and the bond series has one row,
  dated 2. Date 1 lies before that row, and the returned panel holds 5 there, not NaN.
\<close>

theorem leading_dates_counterexample:
  "download_gold_training_data
        (YfFrame \<lparr>index = [1, 2, 3], columns = [(''GC=F'', [Some 10, Some 11, Some 12])]\<rparr>)
        (AkFrame True [(2, Some 5)]) 3 True
      = (Inr (Some \<lparr>index = [1, 2, 3],
                  columns = [(''GOLD_spot_price'', [Some 10, Some 11, Some 12]),
                             (''China_10Y_Treasury_Yield'', [Some 5, Some 5, Some 5])]\<rparr>),
         [WarnBasisMissing])
   \<and> fst (get_china_bond_yield (AkFrame True [(2, Some 5)]) 3) = [(2, Some 5)]
   \<and> [Some 5, Some 5, Some (5 :: real)] ! 0 \<noteq> None"
  by code_simp

end
